theory Spec2Isabelle
  imports Main "HOL-Library.Char_ord" "HOL-Library.List_Lexorder" "HOL-Library.Sublist"
begin

section \<open>Python strings\<close>

text \<open>
  A Python \<open>str\<close> is modelled as a \<open>string\<close>; each \<open>char\<close> stands for the code
  point of the same number, so the model covers texts whose code points are below 256.
  \<open>length\<close> is Python's \<open>len\<close>. The character classes below are the ones Python 3 uses
  on that range: \<open>str.isspace\<close> and the regex class \<open>\s\<close> agree there.
\<close>

definition LF :: char where
  "LF = CHR 0x0A"

definition CR :: char where
  "CR = CHR 0x0D"

definition is_space :: "char \<Rightarrow> bool" where
  "is_space c = (c \<in> set [CHR 0x09, CHR 0x0A, CHR 0x0B, CHR 0x0C, CHR 0x0D,
                           CHR 0x1C, CHR 0x1D, CHR 0x1E, CHR 0x1F, CHR 0x20,
                           CHR 0x85, CHR 0xA0])"

text \<open>The line boundaries of \<open>str.splitlines\<close>.\<close>

definition is_linebreak :: "char \<Rightarrow> bool" where
  "is_linebreak c = (c \<in> set [CHR 0x0A, CHR 0x0B, CHR 0x0C, CHR 0x0D,
                               CHR 0x1C, CHR 0x1D, CHR 0x1E, CHR 0x85])"

text \<open>The regex class \<open>[a-z0-9]\<close> and the class \<open>[a-z0-9-]\<close>.\<close>

definition is_lower_alnum :: "char \<Rightarrow> bool" where
  "is_lower_alnum c = (c \<in> set ''abcdefghijklmnopqrstuvwxyz0123456789'')"

definition is_name_char :: "char \<Rightarrow> bool" where
  "is_name_char c = (is_lower_alnum c \<or> c = CHR ''-'')"

text \<open>\<open>str.lower\<close>: the letters A-Z and the upper-case letters of Latin-1.\<close>

definition lower_char :: "char \<Rightarrow> char" where
  "lower_char c = (let n = (of_char c :: nat) in
     if (65 \<le> n \<and> n \<le> 90) \<or> (192 \<le> n \<and> n \<le> 222 \<and> n \<noteq> 215)
     then char_of (n + 32) else c)"

definition py_lower :: "string \<Rightarrow> string" where
  "py_lower s = map lower_char s"

text \<open>\<open>str.strip()\<close> with no argument.\<close>

definition py_strip :: "string \<Rightarrow> string" where
  "py_strip s = rev (dropWhile is_space (rev (dropWhile is_space s)))"

text \<open>The operator \<open>in\<close> on strings and \<open>str.endswith\<close>.\<close>

fun py_in :: "string \<Rightarrow> string \<Rightarrow> bool" where
  "py_in p [] = (p = [])"
| "py_in p (c # cs) = (prefix p (c # cs) \<or> py_in p cs)"

definition endswith :: "string \<Rightarrow> string \<Rightarrow> bool" where
  "endswith s p = suffix p s"

text \<open>
  \<open>str.splitlines()\<close>: the text is cut at every line boundary, \<open>\r\n\<close> counting as
  one; the boundaries are dropped and a boundary at the very end opens no further line.
  The first argument is the line read so far.
\<close>

fun splitlines_from :: "string \<Rightarrow> string \<Rightarrow> string list" where
  "splitlines_from cur [] = (if cur = [] then [] else [cur])"
| "splitlines_from cur (c # cs) =
     (if is_linebreak c
      then cur # (case cs of
                    d # ds \<Rightarrow> if c = CR \<and> d = LF then splitlines_from [] ds
                              else splitlines_from [] (d # ds)
                  | [] \<Rightarrow> splitlines_from [] [])
      else splitlines_from (cur @ [c]) cs)"

definition py_splitlines :: "string \<Rightarrow> string list" where
  "py_splitlines s = splitlines_from [] s"

text \<open>
  \<open>readlines()\<close> of a file opened in text mode: \<open>read()\<close> has already translated
  every line ending to \<open>\n\<close>, so the lines end at \<open>\n\<close>, which they keep.
\<close>

fun readlines_from :: "string \<Rightarrow> string \<Rightarrow> string list" where
  "readlines_from cur [] = (if cur = [] then [] else [cur])"
| "readlines_from cur (c # cs) =
     (if c = LF then (cur @ [c]) # readlines_from [] cs
      else readlines_from (cur @ [c]) cs)"

definition readlines :: "string \<Rightarrow> string list" where
  "readlines s = readlines_from [] s"

text \<open>\<open>str(n)\<close> of a natural number and of an integer.\<close>

fun show_nat :: "nat \<Rightarrow> string" where
  "show_nat n = (if n < 10 then [''0123456789'' ! n]
                 else show_nat (n div 10) @ [''0123456789'' ! (n mod 10)])"

definition show_int :: "int \<Rightarrow> string" where
  "show_int i = (if i < 0 then CHR ''-'' # show_nat (nat (- i)) else show_nat (nat i))"

text \<open>
  \<open>repr\<close> of a string and of a list of strings, as an f-string prints a list. A code
  point that \<open>str.isprintable\<close> rejects is written \<open>\xhh\<close>.
\<close>

definition is_printable :: "char \<Rightarrow> bool" where
  "is_printable c = (let n = (of_char c :: nat) in
     (32 \<le> n \<and> n \<le> 126) \<or> (161 \<le> n \<and> n \<noteq> 173))"

definition hex2 :: "char \<Rightarrow> string" where
  "hex2 c = (let n = (of_char c :: nat) in
     [''0123456789abcdef'' ! (n div 16), ''0123456789abcdef'' ! (n mod 16)])"

definition repr_char :: "char \<Rightarrow> char \<Rightarrow> string" where
  "repr_char q c =
     (if c = q \<or> c = CHR 0x5C then [CHR 0x5C, c]
      else if c = CHR 0x09 then [CHR 0x5C, CHR ''t'']
      else if c = LF then [CHR 0x5C, CHR ''n'']
      else if c = CR then [CHR 0x5C, CHR ''r'']
      else if \<not> is_printable c then [CHR 0x5C, CHR ''x''] @ hex2 c
      else [c])"

definition py_repr :: "string \<Rightarrow> string" where
  "py_repr s =
     (let q = (if CHR 0x27 \<in> set s \<and> CHR 0x22 \<notin> set s then CHR 0x22 else CHR 0x27)
      in [q] @ concat (map (repr_char q) s) @ [q])"

fun join :: "string \<Rightarrow> string list \<Rightarrow> string" where
  "join sep [] = []"
| "join sep [x] = x"
| "join sep (x # y # ys) = x @ sep @ join sep (y # ys)"

definition py_repr_list :: "string list \<Rightarrow> string" where
  "py_repr_list xs = ''['' @ join '', '' (map py_repr xs) @ '']''"

section \<open>Paths\<close>

text \<open>
  \<open>os.path.normpath\<close> and \<open>os.path.basename\<close> of the POSIX flavour. \<open>split_sep\<close> is
  \<open>path.split('/')\<close>; \<open>norm_comps\<close> is the loop over the components, \<open>slashes\<close> being
  the number of initial slashes kept (0, 1 or 2) and \<open>new_comps\<close> the list built so far.
\<close>

fun split_from :: "string \<Rightarrow> string \<Rightarrow> string list" where
  "split_from cur [] = [cur]"
| "split_from cur (c # cs) =
     (if c = CHR ''/'' then cur # split_from [] cs else split_from (cur @ [c]) cs)"

definition split_sep :: "string \<Rightarrow> string list" where
  "split_sep p = split_from [] p"

fun norm_comps :: "nat \<Rightarrow> string list \<Rightarrow> string list \<Rightarrow> string list" where
  "norm_comps slashes new_comps [] = new_comps"
| "norm_comps slashes new_comps (part # parts) =
     (if part = [] \<or> part = ''.'' then norm_comps slashes new_comps parts
      else if part \<noteq> ''..'' \<or> (slashes = 0 \<and> new_comps = [])
              \<or> (new_comps \<noteq> [] \<and> last new_comps = ''..'')
      then norm_comps slashes (new_comps @ [part]) parts
      else if new_comps \<noteq> [] then norm_comps slashes (butlast new_comps) parts
      else norm_comps slashes new_comps parts)"

definition normpath :: "string \<Rightarrow> string" where
  "normpath path =
     (if path = [] then ''.''
      else let slashes = (if prefix ''/'' path
                          then (if prefix ''//'' path \<and> \<not> prefix ''///'' path then 2 else 1)
                          else 0);
               joined = replicate slashes (CHR ''/'')
                        @ join ''/'' (norm_comps slashes [] (split_sep path))
           in if joined = [] then ''.'' else joined)"

definition basename :: "string \<Rightarrow> string" where
  "basename p = last (split_sep p)"

definition dir_name :: "string \<Rightarrow> string" where
  "dir_name skill_dir = basename (normpath skill_dir)"

section \<open>The three regular expressions\<close>

text \<open>
  Python's \<open>re\<close> is a backtracking matcher: the first match in the order of its
  choices is the match. Each function below is the matcher of one piece of a pattern,
  with the choices in that order.
\<close>

subsection \<open>The frontmatter: \<open>^---\s*\n(.*?)\n---\s*\n\<close> with DOTALL\<close>

text \<open>
  \<open>ws_nl_rests s\<close> matches \<open>\s*\n\<close> at the head of \<open>s\<close>: every text that can follow
  such a match, the greedy choices (the longest \<open>\s*\<close>) first. A newline is itself
  white space, so \<open>\s*\<close> may run over it or stop before it.
\<close>

fun ws_nl_rests :: "string \<Rightarrow> string list" where
  "ws_nl_rests [] = []"
| "ws_nl_rests (c # cs) =
     (if is_space c then ws_nl_rests cs @ (if c = LF then [cs] else []) else [])"

text \<open>\<open>close_delim s\<close> matches \<open>\n---\s*\n\<close> at the head of \<open>s\<close> and gives what follows.\<close>

definition close_delim :: "string \<Rightarrow> string option" where
  "close_delim s =
     (if prefix (LF # ''---'') s
      then (case ws_nl_rests (drop 4 s) of [] \<Rightarrow> None | r # _ \<Rightarrow> Some r)
      else None)"

text \<open>
  \<open>fm_tail acc s\<close> matches \<open>(.*?)\n---\s*\n\<close> at the head of \<open>s\<close>, the lazy group
  growing one character at a time; \<open>acc\<close> is the group so far. The result is the group
  and the text after the match.
\<close>

fun fm_tail :: "string \<Rightarrow> string \<Rightarrow> (string \<times> string) option" where
  "fm_tail acc [] = None"
| "fm_tail acc (c # cs) =
     (case close_delim (c # cs) of
        Some rest \<Rightarrow> Some (acc, rest)
      | None \<Rightarrow> fm_tail (acc @ [c]) cs)"

fun first_some :: "'a option list \<Rightarrow> 'a option" where
  "first_some [] = None"
| "first_some (None # xs) = first_some xs"
| "first_some (Some x # xs) = Some x"

text \<open>
  \<open>fm_match content\<close> is \<open>re.match\<close> of the whole pattern: \<open>group(1)\<close> and
  \<open>content[fm_match.end():]\<close>, or \<open>None\<close>.
\<close>

definition fm_match :: "string \<Rightarrow> (string \<times> string) option" where
  "fm_match content =
     (if prefix ''---'' content
      then first_some (map (fm_tail []) (ws_nl_rests (drop 3 content)))
      else None)"

subsection \<open>The name: \<open>^[a-z0-9]([a-z0-9-]*[a-z0-9])?$\<close>\<close>

text \<open>
  Without MULTILINE, \<open>$\<close> matches at the end of the string and also before a
  newline that is the last character.
\<close>

definition name_core :: "string \<Rightarrow> bool" where
  "name_core s = (s \<noteq> [] \<and> is_lower_alnum (hd s) \<and> list_all is_name_char s
                  \<and> is_lower_alnum (last s))"

definition name_pattern :: "string \<Rightarrow> bool" where
  "name_pattern name =
     (name_core name \<or> (name \<noteq> [] \<and> last name = LF \<and> name_core (butlast name)))"

subsection \<open>The description: \<open>re.sub(r"\s+", " ", s)\<close>\<close>

text \<open>
  Every maximal run of white space becomes one space. The flag says that the previous
  character belonged to a run, whose space has been written already.
\<close>

fun collapse_from :: "bool \<Rightarrow> string \<Rightarrow> string" where
  "collapse_from in_run [] = []"
| "collapse_from in_run (c # cs) =
     (if is_space c
      then (if in_run then collapse_from True cs else CHR '' '' # collapse_from True cs)
      else c # collapse_from False cs)"

definition collapse_ws :: "string \<Rightarrow> string" where
  "collapse_ws s = collapse_from False s"

subsection \<open>The links: \<open>\[.*?\]\((?:references/|\./).*?\.md\)\<close>\<close>

text \<open>
  Without DOTALL a dot matches every character but the newline. Each matcher gives the
  text it matched. \<open>md_close\<close> is \<open>.*?\.md\)\<close>, \<open>link_target\<close> is
  \<open>(?:references/|\./).*?\.md\)\<close>, \<open>link_text\<close> is \<open>.*?\]\(\<close> followed by
  \<open>link_target\<close>, and \<open>link_at\<close> is the whole pattern at the head of the text.
\<close>

fun md_close :: "string \<Rightarrow> string option" where
  "md_close [] = None"
| "md_close (c # cs) =
     (if prefix ''.md)'' (c # cs) then Some ''.md)''
      else if c = LF then None
      else map_option (Cons c) (md_close cs))"

definition link_target :: "string \<Rightarrow> string option" where
  "link_target s =
     (if prefix ''references/'' s
      then map_option (append ''references/'') (md_close (drop 11 s))
      else if prefix ''./'' s
      then map_option (append ''./'') (md_close (drop 2 s))
      else None)"

fun link_text :: "string \<Rightarrow> string option" where
  "link_text [] = None"
| "link_text (c # cs) =
     (case (if prefix '']('' (c # cs)
            then map_option (append '']('') (link_target (drop 2 (c # cs)))
            else None) of
        Some m \<Rightarrow> Some m
      | None \<Rightarrow> if c = LF then None else map_option (Cons c) (link_text cs))"

definition link_at :: "string \<Rightarrow> string option" where
  "link_at s = (case s of
      [] \<Rightarrow> None
    | c # cs \<Rightarrow> if c = CHR ''['' then map_option (Cons c) (link_text cs) else None)"

text \<open>
  \<open>re.findall\<close>: the matches from left to right, without overlap. \<open>skip\<close> counts the
  characters of the last match that are still to be passed over.
\<close>

fun findall_from :: "nat \<Rightarrow> string \<Rightarrow> string list" where
  "findall_from skip [] = []"
| "findall_from skip (c # cs) =
     (if 0 < skip then findall_from (skip - 1) cs
      else case link_at (c # cs) of
             Some m \<Rightarrow> m # findall_from (length m - 1) cs
           | None \<Rightarrow> findall_from 0 cs)"

definition findall_links :: "string \<Rightarrow> string list" where
  "findall_links s = findall_from 0 s"

section \<open>The parsed frontmatter\<close>

text \<open>
  \<open>yaml.safe_load\<close> is a collaborator from outside the repository: the validator takes
  it as a parameter, a function from the header text to a \<open>YAMLError\<close> (its message) or
  the loaded object. Of an object the validator reads whether it is a \<open>dict\<close>, its truth
  value, whether it is a \<open>str\<close>, and its \<open>str()\<close>; \<open>PyObj\<close> stands for every object
  that is none of the others (a float, a list, a nested mapping, a date), given by its
  truth value and its \<open>str()\<close>. A \<open>dict\<close> is the map of its string keys: the validator
  looks up string keys only.
\<close>

datatype pyval =
    PyNone
  | PyBool bool
  | PyInt int
  | PyStr string
  | PyObj bool string

datatype pydoc =
    DocDict "string \<rightharpoonup> pyval"
  | DocVal pyval

type_synonym yaml_loader = "string \<Rightarrow> string + pydoc"

fun truthy :: "pyval \<Rightarrow> bool" where
  "truthy PyNone = False"
| "truthy (PyBool b) = b"
| "truthy (PyInt i) = (i \<noteq> 0)"
| "truthy (PyStr s) = (s \<noteq> [])"
| "truthy (PyObj t s) = t"

fun py_str :: "pyval \<Rightarrow> string" where
  "py_str PyNone = ''None''"
| "py_str (PyBool b) = (if b then ''True'' else ''False'')"
| "py_str (PyInt i) = show_int i"
| "py_str (PyStr s) = s"
| "py_str (PyObj t s) = s"

text \<open>\<open>d.get(key, default)\<close>.\<close>

definition dict_get :: "(string \<rightharpoonup> pyval) \<Rightarrow> string \<Rightarrow> pyval \<Rightarrow> pyval" where
  "dict_get d k dflt = (case d k of None \<Rightarrow> dflt | Some v \<Rightarrow> v)"

section \<open>The files\<close>

text \<open>
  What the validator reads of the disk: the text of \<open>SKILL.md\<close> when it is a regular
  file, and the entries of \<open>references\<close> when it is a directory, in the order of
  \<open>os.listdir\<close>. An entry is a regular file with its text, or anything else. The files
  are taken to be readable UTF-8.
\<close>

datatype node = File string | NotFile

record skill_fs =
  skill_md :: "string option"
  references :: "(string \<times> node) list option"

text \<open>The exceptions that leave \<open>validate_skill\<close>.\<close>

datatype py_error = AttributeError | TypeError

section \<open>The messages\<close>

definition err_not_found :: "string \<Rightarrow> string" where
  "err_not_found skill_dir = ''SKILL.md not found in '' @ skill_dir"

definition err_no_frontmatter :: string where
  "err_no_frontmatter = ''SKILL.md missing YAML frontmatter (--- delimiters)''"

definition err_yaml :: "string \<Rightarrow> string" where
  "err_yaml e = ''Invalid YAML frontmatter: '' @ e"

definition err_name_missing :: string where
  "err_name_missing = ''Missing required 'name' field in frontmatter''"

definition err_name_long :: "string \<Rightarrow> string" where
  "err_name_long name =
     [CHR 0x27] @ ''name' exceeds 64 characters ('' @ show_nat (length name) @ '' chars)''"

definition err_name_pattern :: "string \<Rightarrow> string" where
  "err_name_pattern name =
     [CHR 0x27]
     @ ''name' must be lowercase alphanumeric + hyphens, not start/end with hyphen: ''
     @ [CHR 0x27] @ name @ [CHR 0x27]"

definition err_name_hyphens :: "string \<Rightarrow> string" where
  "err_name_hyphens name =
     [CHR 0x27] @ ''name' must not contain consecutive hyphens: ''
     @ [CHR 0x27] @ name @ [CHR 0x27]"

definition err_name_dir :: "string \<Rightarrow> string \<Rightarrow> string" where
  "err_name_dir name dir =
     [CHR 0x27] @ ''name' ('' @ name @ '') does not match directory name ('' @ dir @ '')''"

definition err_desc_missing :: string where
  "err_desc_missing = ''Missing or empty 'description' field in frontmatter''"

definition err_desc_long :: "nat \<Rightarrow> string" where
  "err_desc_long n =
     [CHR 0x27] @ ''description' exceeds 1024 characters ('' @ show_nat n @ '' chars)''"

definition warn_license :: string where
  "warn_license = ''No 'license' field in frontmatter (recommended)''"

definition warn_body :: "nat \<Rightarrow> string" where
  "warn_body n = ''SKILL.md body is '' @ show_nat n @ '' lines (recommended max: 500)''"

definition warn_toc :: "string \<Rightarrow> nat \<Rightarrow> string" where
  "warn_toc fname n =
     ''references/'' @ fname @ '' ('' @ show_nat n
     @ '' lines) has no Table of Contents (recommended for files > 100 lines)''"

definition warn_nested :: "string \<Rightarrow> string list \<Rightarrow> string" where
  "warn_nested fname nested =
     ''references/'' @ fname
     @ '' has nested reference links (should be one level deep): ''
     @ py_repr_list (take 3 nested)"

section \<open>The validator\<close>

subsection \<open>Step 3: the name\<close>

text \<open>
  The four checks of a name that is a string. On a truthy name that is not a string,
  \<open>len\<close> or \<open>re.match\<close> raises \<open>TypeError\<close>.
\<close>

definition name_errors :: "string \<Rightarrow> string \<Rightarrow> string list" where
  "name_errors name dir =
     (if 64 < length name then [err_name_long name] else [])
     @ (if \<not> name_pattern name then [err_name_pattern name] else [])
     @ (if py_in ''--'' name then [err_name_hyphens name] else [])
     @ (if name \<noteq> dir then [err_name_dir name dir] else [])"

definition check_name :: "(string \<rightharpoonup> pyval) \<Rightarrow> string \<Rightarrow> py_error + string list" where
  "check_name frontmatter skill_dir =
     (let name = dict_get frontmatter ''name'' PyNone in
      if \<not> truthy name then Inr [err_name_missing]
      else case name of
             PyStr n \<Rightarrow> Inr (name_errors n (dir_name skill_dir))
           | _ \<Rightarrow> Inl TypeError)"

subsection \<open>Step 4: the description\<close>

definition check_description :: "(string \<rightharpoonup> pyval) \<Rightarrow> string list" where
  "check_description frontmatter =
     (let desc = dict_get frontmatter ''description'' (PyStr []) in
      if \<not> truthy desc \<or> py_strip (py_str desc) = [] then [err_desc_missing]
      else let desc_str = py_strip (py_str desc);
               desc_collapsed = collapse_ws desc_str
           in if 1024 < length desc_collapsed then [err_desc_long (length desc_collapsed)]
              else [])"

subsection \<open>Steps 5 and 6: the license and the body\<close>

definition check_license :: "(string \<rightharpoonup> pyval) \<Rightarrow> string list" where
  "check_license frontmatter = (if frontmatter ''license'' = None then [warn_license] else [])"

definition check_body :: "string \<Rightarrow> string list" where
  "check_body body =
     (let body_lines = py_splitlines (py_strip body) in
      if 500 < length body_lines then [warn_body (length body_lines)] else [])"

subsection \<open>Steps 7 and 8: the reference files\<close>

text \<open>
  \<open>toc_warnings\<close> and \<open>nested_warnings\<close> are what each loop does with one file it has
  not skipped; \<open>toc_step\<close> and \<open>nested_step\<close> are one iteration, which skips a name that
  does not end in \<open>.md\<close> or is not a regular file and appends nothing for it; the two
  passes run over the sorted names, each to its end.
\<close>

definition toc_warnings :: "string \<Rightarrow> string \<Rightarrow> string list" where
  "toc_warnings fname text =
     (let ref_lines = readlines text in
      if 100 < length ref_lines
      then (let header = py_lower (concat (take 30 ref_lines)) in
            if \<not> py_in ''table of contents'' header \<and> \<not> py_in ''## contents'' header
            then [warn_toc fname (length ref_lines)] else [])
      else [])"

definition nested_warnings :: "string \<Rightarrow> string \<Rightarrow> string list" where
  "nested_warnings fname text =
     (let nested = findall_links text in
      if nested \<noteq> [] then [warn_nested fname nested] else [])"

definition toc_step :: "(string \<times> node) list \<Rightarrow> string \<Rightarrow> string list" where
  "toc_step entries fname =
     (if \<not> endswith fname ''.md'' then []
      else case map_of entries fname of
             Some (File text) \<Rightarrow> toc_warnings fname text
           | _ \<Rightarrow> [])"

definition nested_step :: "(string \<times> node) list \<Rightarrow> string \<Rightarrow> string list" where
  "nested_step entries fname =
     (if \<not> endswith fname ''.md'' then []
      else case map_of entries fname of
             Some (File text) \<Rightarrow> nested_warnings fname text
           | _ \<Rightarrow> [])"

fun toc_pass :: "(string \<times> node) list \<Rightarrow> string list \<Rightarrow> string list" where
  "toc_pass entries [] = []"
| "toc_pass entries (fname # fnames) = toc_step entries fname @ toc_pass entries fnames"

fun nested_pass :: "(string \<times> node) list \<Rightarrow> string list \<Rightarrow> string list" where
  "nested_pass entries [] = []"
| "nested_pass entries (fname # fnames) =
     nested_step entries fname @ nested_pass entries fnames"

definition check_toc :: "(string \<times> node) list option \<Rightarrow> string list" where
  "check_toc refs = (case refs of
      None \<Rightarrow> []
    | Some entries \<Rightarrow> toc_pass entries (sort (map fst entries)))"

definition check_nested :: "(string \<times> node) list option \<Rightarrow> string list" where
  "check_nested refs = (case refs of
      None \<Rightarrow> []
    | Some entries \<Rightarrow> nested_pass entries (sort (map fst entries)))"

subsection \<open>The whole pass\<close>

text \<open>
  \<open>validate_skill\<close> gives the two lists, errors first, or the exception that leaves
  it. \<open>frontmatter.get\<close> raises \<open>AttributeError\<close> on an object that is not a \<open>dict\<close>.
\<close>

definition validate_skill ::
  "yaml_loader \<Rightarrow> skill_fs \<Rightarrow> string \<Rightarrow> py_error + (string list \<times> string list)" where
  "validate_skill safe_load fs skill_dir =
     (case skill_md fs of
        None \<Rightarrow> Inr ([err_not_found skill_dir], [])
      | Some content \<Rightarrow>
     (case fm_match content of
        None \<Rightarrow> Inr ([err_no_frontmatter], [])
      | Some (header, body) \<Rightarrow>
     (case safe_load header of
        Inl e \<Rightarrow> Inr ([err_yaml e], [])
      | Inr (DocVal v) \<Rightarrow> Inl AttributeError
      | Inr (DocDict frontmatter) \<Rightarrow>
     (case check_name frontmatter skill_dir of
        Inl exn \<Rightarrow> Inl exn
      | Inr name_errs \<Rightarrow>
          Inr (name_errs @ check_description frontmatter,
               check_license frontmatter @ check_body body
               @ check_toc (references fs) @ check_nested (references fs))))))"

section \<open>Properties of the validator\<close>

text \<open>Past the two fatal steps, the result is the concatenation of the later checks.\<close>

lemma validate_parsed:
  assumes "skill_md fs = Some content" "fm_match content = Some (header, body)"
    "L header = Inr (DocDict fm)"
  shows "validate_skill L fs d =
    (case check_name fm d of
       Inl exn \<Rightarrow> Inl exn
     | Inr name_errs \<Rightarrow>
         Inr (name_errs @ check_description fm,
              check_license fm @ check_body body
              @ check_toc (references fs) @ check_nested (references fs)))"
  using assms by (simp add: validate_skill_def)

subsection \<open>The fatal conditions\<close>

text \<open>
  A missing \<open>SKILL.md\<close>, a text with no frontmatter at its start and a frontmatter
  that the YAML parser rejects each make \<open>validate_skill\<close> return one error and no
  warning.
\<close>

lemma fatal_returns:
  "skill_md fs = None \<Longrightarrow> validate_skill L fs d = Inr ([err_not_found d], [])"
  "skill_md fs = Some content \<Longrightarrow> fm_match content = None
   \<Longrightarrow> validate_skill L fs d = Inr ([err_no_frontmatter], [])"
  "skill_md fs = Some content \<Longrightarrow> fm_match content = Some (header, body)
   \<Longrightarrow> L header = Inl e \<Longrightarrow> validate_skill L fs d = Inr ([err_yaml e], [])"
  by (simp_all add: validate_skill_def)

lemma fm_match_ex1:
  "fm_match ''---\<newline>name: my-skill\<newline>---\<newline># Body\<newline>''
   = Some (''name: my-skill'', ''# Body\<newline>'')"
  by code_simp

lemma fm_match_ex2: "fm_match ''# Body only\<newline>'' = None"
  by code_simp

lemma fatal_returns_examples:
  "validate_skill (\<lambda>h. Inl ''mapping values are not allowed here'')
     \<lparr>skill_md = None, references = None\<rparr> ''skills/my-skill''
     = Inr ([err_not_found ''skills/my-skill''], [])"
  "validate_skill (\<lambda>h. Inl ''mapping values are not allowed here'')
     \<lparr>skill_md = Some ''# Body only\<newline>'', references = None\<rparr> ''skills/my-skill''
     = Inr ([err_no_frontmatter], [])"
  "validate_skill (\<lambda>h. Inl ''mapping values are not allowed here'')
     \<lparr>skill_md = Some ''---\<newline>name: my-skill\<newline>---\<newline># Body\<newline>'',
      references = None\<rparr> ''skills/my-skill''
     = Inr ([err_yaml ''mapping values are not allowed here''], [])"
  by (simp_all add: fatal_returns fm_match_ex1 fm_match_ex2)

lemma py_strip_id:
  assumes "s \<noteq> []" "\<not> is_space (hd s)" "\<not> is_space (last s)"
  shows "py_strip s = s"
proof -
  have a: "dropWhile is_space s = s" using assms by (cases s) auto
  have "rev s \<noteq> []" "\<not> is_space (hd (rev s))" using assms by (auto simp: hd_rev)
  then have "dropWhile is_space (rev s) = rev s" by (cases "rev s") auto
  with a show ?thesis by (simp add: py_strip_def)
qed

lemma splitlines_from_last:
  "\<forall>c\<in>set l. \<not> is_linebreak c \<Longrightarrow> cur @ l \<noteq> [] \<Longrightarrow> splitlines_from cur l = [cur @ l]"
  by (induction l arbitrary: cur) auto

lemma LF_linebreak: "is_linebreak LF" "LF \<noteq> CR"
  by (simp_all add: is_linebreak_def LF_def CR_def)

lemma splitlines_from_line:
  "\<forall>c\<in>set l. \<not> is_linebreak c \<Longrightarrow> t \<noteq> []
   \<Longrightarrow> splitlines_from cur (l @ LF # t) = (cur @ l) # splitlines_from [] t"
proof (induction l arbitrary: cur)
  case Nil
  then show ?case by (cases t) (auto simp: LF_linebreak)
next
  case (Cons a l)
  then show ?case by simp
qed

lemma splitlines_lines:
  assumes "\<forall>l\<in>set ls. \<forall>c\<in>set l. \<not> is_linebreak c"
    and "\<forall>c\<in>set l0. \<not> is_linebreak c" and "l0 \<noteq> []"
  shows "py_splitlines (concat (map (\<lambda>l. l @ [LF]) ls) @ l0) = ls @ [l0]"
  using assms(1)
proof (induction ls)
  case Nil
  show ?case using assms(2,3) by (simp add: py_splitlines_def splitlines_from_last)
next
  case (Cons l ls)
  have ne: "concat (map (\<lambda>l. l @ [LF]) ls) @ l0 \<noteq> []" using assms(3) by simp
  have "py_splitlines (concat (map (\<lambda>l. l @ [LF]) (l # ls)) @ l0)
        = splitlines_from [] (l @ LF # (concat (map (\<lambda>l. l @ [LF]) ls) @ l0))"
    by (simp add: py_splitlines_def)
  also have "\<dots> = l # splitlines_from [] (concat (map (\<lambda>l. l @ [LF]) ls) @ l0)"
    using Cons.prems ne by (subst splitlines_from_line) auto
  finally show ?case using Cons by (simp add: py_splitlines_def)
qed

lemma check_body_lines:
  assumes "\<forall>c\<in>set l. \<not> is_linebreak c" "l \<noteq> []" "\<not> is_space (hd l)" "\<not> is_space (last l)"
  shows "check_body (concat (replicate n (l @ [LF])) @ l)
         = (if 500 < Suc n then [warn_body (Suc n)] else [])"
proof -
  let ?b = "concat (replicate n (l @ [LF])) @ l"
  have hd: "hd ?b = hd l" using assms(2) by (cases n) auto
  have "py_strip ?b = ?b"
    using assms by (intro py_strip_id) (auto simp: hd)
  moreover have "py_splitlines ?b = replicate n l @ [l]"
    using splitlines_lines[of "replicate n l" l] assms by (simp add: map_replicate)
  ultimately show ?thesis by (simp add: check_body_def Let_def)
qed

lemma fm_match_header:
  assumes "t = [] \<or> \<not> is_space (hd t)"
  shows "fm_match (''---\<newline>name: my-skill\<newline>---\<newline>'' @ t) = Some (''name: my-skill'', t)"
proof (cases t)
  case Nil
  then show ?thesis
    by (simp add: fm_match_def close_delim_def is_space_def LF_def)
next
  case (Cons a u)
  with assms have "\<not> is_space a" by simp
  then show ?thesis unfolding Cons
    by (simp add: fm_match_def close_delim_def is_space_def LF_def)
qed

lemma dir_name_ex: "dir_name ''skills/my-skill'' = ''my-skill''"
  by code_simp

text \<open>
  C3. When the header parses as YAML but the object loaded is not a mapping (an empty
  header gives \<open>None\<close>, a plain word gives a string), \<open>frontmatter.get\<close> raises
  \<open>AttributeError\<close>: \<open>validate_skill\<close> returns no error list at all.
\<close>

theorem non_mapping_frontmatter_raises:
  "skill_md fs = Some content \<Longrightarrow> fm_match content = Some (header, body)
   \<Longrightarrow> L header = Inr (DocVal v)
   \<Longrightarrow> validate_skill L fs d = Inl AttributeError"
  by (simp add: validate_skill_def)

lemma fm_match_scalar:
  "fm_match ''---\<newline>hello\<newline>---\<newline>'' = Some (''hello'', [])"
  by code_simp

lemma fm_match_empty:
  "fm_match ''---\<newline>\<newline>---\<newline>'' = Some ([], [])"
  by code_simp

theorem non_mapping_frontmatter_raises_witness:
  "validate_skill (\<lambda>h. Inr (DocVal (if h = [] then PyNone else PyStr h)))
     \<lparr>skill_md = Some ''---\<newline>hello\<newline>---\<newline>'', references = None\<rparr>
     ''skills/my-skill'' = Inl AttributeError
   \<and> validate_skill (\<lambda>h. Inr (DocVal (if h = [] then PyNone else PyStr h)))
     \<lparr>skill_md = Some ''---\<newline>\<newline>---\<newline>'', references = None\<rparr>
     ''skills/my-skill'' = Inl AttributeError"
  using non_mapping_frontmatter_raises
      [where fs = "\<lparr>skill_md = Some ''---\<newline>hello\<newline>---\<newline>'', references = None\<rparr>"
         and content = "''---\<newline>hello\<newline>---\<newline>''" and header = "''hello''"
         and body = "[]" and v = "PyStr ''hello''"
         and L = "\<lambda>h. Inr (DocVal (if h = [] then PyNone else PyStr h))"
         and d = "''skills/my-skill''"]
    non_mapping_frontmatter_raises
      [where fs = "\<lparr>skill_md = Some ''---\<newline>\<newline>---\<newline>'', references = None\<rparr>"
         and content = "''---\<newline>\<newline>---\<newline>''" and header = "[]"
         and body = "[]" and v = "PyNone"
         and L = "\<lambda>h. Inr (DocVal (if h = [] then PyNone else PyStr h))"
         and d = "''skills/my-skill''"]
    fm_match_scalar fm_match_empty
  by simp

text \<open>
  C9. A name that is there but falsy (the empty string, or the \<open>None\<close> of a bare
  \<open>name:\<close> key) is reported by the one missing-name error, as an absent name is; none
  of the four name checks runs, and the rest of the pass goes on.
\<close>

theorem falsy_name_reported_missing:
  "skill_md fs = Some content \<Longrightarrow> fm_match content = Some (header, body)
   \<Longrightarrow> L header = Inr (DocDict fm) \<Longrightarrow> fm ''name'' = Some v \<Longrightarrow> \<not> truthy v
   \<Longrightarrow> check_name fm d = Inr [err_name_missing]
       \<and> validate_skill L fs d =
           Inr ([err_name_missing] @ check_description fm,
                check_license fm @ check_body body
                @ check_toc (references fs) @ check_nested (references fs))"
  by (simp add: validate_skill_def check_name_def dict_get_def)

theorem falsy_name_reported_missing_witness:
  "validate_skill
     (\<lambda>h. Inr (DocDict [''name'' \<mapsto> PyStr [], ''description'' \<mapsto> PyStr ''Does things'',
                        ''license'' \<mapsto> PyStr ''MIT'']))
     \<lparr>skill_md = Some (''---\<newline>name: my-skill\<newline>---\<newline>'' @ ''# Body''),
      references = None\<rparr> ''skills/my-skill''
     = Inr ([err_name_missing], [])
   \<and> validate_skill
     (\<lambda>h. Inr (DocDict [''name'' \<mapsto> PyNone, ''description'' \<mapsto> PyStr ''Does things'',
                        ''license'' \<mapsto> PyStr ''MIT'']))
     \<lparr>skill_md = Some (''---\<newline>name: my-skill\<newline>---\<newline>'' @ ''# Body''),
      references = None\<rparr> ''skills/my-skill''
     = Inr ([err_name_missing], [])"
proof -
  have fm: "fm_match (''---\<newline>name: my-skill\<newline>---\<newline>'' @ ''# Body'')
            = Some (''name: my-skill'', ''# Body'')"
    by (rule fm_match_header) (simp add: is_space_def)
  have d: "check_description [''name'' \<mapsto> v, ''description'' \<mapsto> PyStr ''Does things'',
                        ''license'' \<mapsto> PyStr ''MIT''] = []" for v
    by (simp add: check_description_def dict_get_def py_strip_def is_space_def collapse_ws_def)
  have b: "check_body ''# Body'' = []"
    by (simp add: check_body_def py_strip_def is_space_def py_splitlines_def is_linebreak_def)
  show ?thesis
    using falsy_name_reported_missing
        [where fs = "\<lparr>skill_md = Some (''---\<newline>name: my-skill\<newline>---\<newline>'' @ ''# Body''),
                       references = None\<rparr>"
           and L = "\<lambda>h. Inr (DocDict [''name'' \<mapsto> PyStr [],
                     ''description'' \<mapsto> PyStr ''Does things'', ''license'' \<mapsto> PyStr ''MIT''])"
           and v = "PyStr []" and d = "''skills/my-skill''", OF _ fm]
      falsy_name_reported_missing
        [where fs = "\<lparr>skill_md = Some (''---\<newline>name: my-skill\<newline>---\<newline>'' @ ''# Body''),
                       references = None\<rparr>"
           and L = "\<lambda>h. Inr (DocDict [''name'' \<mapsto> PyNone,
                     ''description'' \<mapsto> PyStr ''Does things'', ''license'' \<mapsto> PyStr ''MIT''])"
           and v = "PyNone" and d = "''skills/my-skill''", OF _ fm]
    by (simp add: d b check_license_def check_toc_def check_nested_def)
qed

subsection \<open>Example documents\<close>

text \<open>
  A \<open>SKILL.md\<close> with a one-line header (a YAML flow mapping, say) and a body that does
  not begin with white space: the frontmatter pattern finds exactly that header and
  that body.
\<close>

definition skill_text :: "string \<Rightarrow> string \<Rightarrow> string" where
  "skill_text h body = ''---'' @ [LF] @ h @ [LF] @ ''---'' @ [LF] @ body"

lemma ws_nl_rests_none: "t = [] \<or> \<not> is_space (hd t) \<Longrightarrow> ws_nl_rests t = []"
  by (cases t) auto

lemma LF_space: "is_space LF"
  by (simp add: is_space_def LF_def)

lemma close_delim_here:
  "t = [] \<or> \<not> is_space (hd t) \<Longrightarrow> close_delim (LF # ''---'' @ LF # t) = Some t"
  by (simp add: close_delim_def LF_space ws_nl_rests_none)

lemma close_delim_other: "c \<noteq> LF \<Longrightarrow> close_delim (c # s) = None"
  by (simp add: close_delim_def)

lemma fm_tail_one_line:
  "LF \<notin> set h \<Longrightarrow> t = [] \<or> \<not> is_space (hd t)
   \<Longrightarrow> fm_tail acc (h @ LF # ''---'' @ LF # t) = Some (acc @ h, t)"
proof (induction h arbitrary: acc)
  case Nil
  then show ?case using close_delim_here[of t] by simp
next
  case (Cons c h)
  then have "close_delim (c # h @ LF # ''---'' @ LF # t) = None"
    by (intro close_delim_other) auto
  with Cons show ?case by simp
qed

lemma fm_match_skill_text:
  assumes "h \<noteq> []" "\<not> is_space (hd h)" "LF \<notin> set h" "t = [] \<or> \<not> is_space (hd t)"
  shows "fm_match (skill_text h t) = Some (h, t)"
proof -
  have "ws_nl_rests (LF # h @ LF # ''---'' @ LF # t) = [h @ LF # ''---'' @ LF # t]"
    using assms(1,2) by (cases h) (auto simp: LF_space)
  then show ?thesis
    using fm_tail_one_line[OF assms(3,4), of "[]"]
    by (simp add: fm_match_def skill_text_def)
qed

text \<open>A body of \<open>n + 1\<close> lines and what the body check says of it.\<close>

definition body_of_lines :: "nat \<Rightarrow> string" where
  "body_of_lines n = concat (replicate n (''line'' @ [LF])) @ ''line''"

lemma hd_body_of_lines: "hd (body_of_lines n) = CHR ''l''"
  by (cases n) (simp_all add: body_of_lines_def)

lemma length_body_of_lines:
  "length (py_splitlines (py_strip (body_of_lines n))) = Suc n"
proof -
  have "py_strip (body_of_lines n) = body_of_lines n"
    by (rule py_strip_id)
       (simp_all add: hd_body_of_lines is_space_def, simp_all add: body_of_lines_def)
  moreover have "py_splitlines (body_of_lines n) = replicate n ''line'' @ [''line'']"
    using splitlines_lines[of "replicate n ''line''" "''line''"]
    by (simp add: map_replicate body_of_lines_def is_linebreak_def)
  ultimately show ?thesis by simp
qed

subsection \<open>The body\<close>

text \<open>
  Once the header has been parsed and the name check has raised nothing, the body
  after the closing delimiter is stripped and split into lines, and the warnings hold
  one body-length warning, which cites the number of lines, exactly when there are
  more than 500 of them. It stands after the license warning, if any, and before those
  of the reference files.
\<close>

lemma body_length_rule:
  "skill_md fs = Some content \<Longrightarrow> fm_match content = Some (header, body)
   \<Longrightarrow> L header = Inr (DocDict fm) \<Longrightarrow> check_name fm d = Inr name_errs
   \<Longrightarrow> n = length (py_splitlines (py_strip body))
   \<Longrightarrow> validate_skill L fs d =
         Inr (name_errs @ check_description fm,
              check_license fm @ (if 500 < n then [warn_body n] else [])
              @ check_toc (references fs) @ check_nested (references fs))
       \<and> warn_body n = ''SKILL.md body is '' @ show_nat n @ '' lines (recommended max: 500)''"
  by (simp add: validate_skill_def check_body_def Let_def warn_body_def)

lemma header_ok:
  "''{name: my-skill, description: Does things, license: MIT}'' \<noteq> []"
  "\<not> is_space (hd ''{name: my-skill, description: Does things, license: MIT}'')"
  "LF \<notin> set ''{name: my-skill, description: Does things, license: MIT}''"
  by (simp_all add: is_space_def LF_def)

lemma good_frontmatter:
  "check_name [''name'' \<mapsto> PyStr ''my-skill'', ''description'' \<mapsto> PyStr ''Does things'',
               ''license'' \<mapsto> PyStr ''MIT''] ''skills/my-skill'' = Inr []"
  "check_description [''name'' \<mapsto> PyStr ''my-skill'', ''description'' \<mapsto> PyStr ''Does things'',
               ''license'' \<mapsto> PyStr ''MIT''] = []"
  "check_license [''name'' \<mapsto> PyStr ''my-skill'', ''description'' \<mapsto> PyStr ''Does things'',
               ''license'' \<mapsto> PyStr ''MIT''] = []"
  by code_simp+

lemma show_nat_501: "show_nat 501 = ''501''"
  by code_simp

lemma body_length_rule_examples:
  "validate_skill
     (\<lambda>h. Inr (DocDict [''name'' \<mapsto> PyStr ''my-skill'',
                        ''description'' \<mapsto> PyStr ''Does things'', ''license'' \<mapsto> PyStr ''MIT'']))
     \<lparr>skill_md = Some (skill_text ''{name: my-skill, description: Does things, license: MIT}''
                         (body_of_lines 500)),
      references = None\<rparr> ''skills/my-skill''
     = Inr ([], [''SKILL.md body is 501 lines (recommended max: 500)''])
   \<and> validate_skill
     (\<lambda>h. Inr (DocDict [''name'' \<mapsto> PyStr ''my-skill'',
                        ''description'' \<mapsto> PyStr ''Does things'', ''license'' \<mapsto> PyStr ''MIT'']))
     \<lparr>skill_md = Some (skill_text ''{name: my-skill, description: Does things, license: MIT}''
                         (body_of_lines 499)),
      references = None\<rparr> ''skills/my-skill''
     = Inr ([], [])"
proof -
  let ?h = "''{name: my-skill, description: Does things, license: MIT}''"
  let ?L = "\<lambda>h::string. (Inr (DocDict [''name'' \<mapsto> PyStr ''my-skill'',
                ''description'' \<mapsto> PyStr ''Does things'', ''license'' \<mapsto> PyStr ''MIT''])
                :: string + pydoc)"
  have fm: "fm_match (skill_text ?h (body_of_lines k)) = Some (?h, body_of_lines k)" for k
    by (rule fm_match_skill_text[OF header_ok]) (simp add: hd_body_of_lines is_space_def)
  have n500: "length (py_splitlines (py_strip (body_of_lines 500))) = 501"
    by (simp add: length_body_of_lines)
  have n499: "\<not> 500 < length (py_splitlines (py_strip (body_of_lines 499)))"
    by (simp add: length_body_of_lines)
  show ?thesis
    using body_length_rule
        [where fs = "\<lparr>skill_md = Some (skill_text ?h (body_of_lines 500)), references = None\<rparr>"
           and L = ?L and d = "''skills/my-skill''" and n = 501, OF _ fm]
      body_length_rule
        [where fs = "\<lparr>skill_md = Some (skill_text ?h (body_of_lines 499)), references = None\<rparr>"
           and L = ?L and d = "''skills/my-skill''"
           and n = "length (py_splitlines (py_strip (body_of_lines 499)))", OF _ fm]
      n499
    by (simp add: good_frontmatter n500 show_nat_501 check_toc_def check_nested_def)
qed

subsection \<open>The name\<close>

text \<open>
  C4, as stated, fails on a name that is present but empty: the pattern check and the
  directory check would both fail on it, and the validator reports neither, only the
  missing name.
\<close>

theorem empty_name_skips_checks_counterexample:
  "validate_skill
     (\<lambda>h. Inr (DocDict [''name'' \<mapsto> PyStr [], ''description'' \<mapsto> PyStr ''Does things'',
                        ''license'' \<mapsto> PyStr ''MIT'']))
     \<lparr>skill_md = Some (skill_text
        (''{name: '' @ [CHR 0x22, CHR 0x22] @ '', description: Does things, license: MIT}'')
        ''# Body''),
      references = None\<rparr> ''skills/foo''
     = Inr ([err_name_missing], [])
   \<and> \<not> name_pattern [] \<and> [] \<noteq> dir_name ''skills/foo''"
proof -
  have "fm_match (skill_text
        (''{name: '' @ [CHR 0x22, CHR 0x22] @ '', description: Does things, license: MIT}'')
        ''# Body'')
      = Some (''{name: '' @ [CHR 0x22, CHR 0x22] @ '', description: Does things, license: MIT}'',
              ''# Body'')"
    by (rule fm_match_skill_text) (simp_all add: is_space_def LF_def)
  moreover have "check_description [''name'' \<mapsto> PyStr [], ''description'' \<mapsto> PyStr ''Does things'',
                        ''license'' \<mapsto> PyStr ''MIT''] = []"
    by code_simp
  moreover have "check_body ''# Body'' = []"
    by code_simp
  moreover have "dir_name ''skills/foo'' = ''foo''"
    by code_simp
  moreover have "\<not> name_pattern []"
    by (simp add: name_pattern_def name_core_def)
  ultimately show ?thesis
    by (simp add: validate_skill_def check_name_def dict_get_def check_license_def
        check_toc_def check_nested_def)
qed

text \<open>
  C4, amended. When the name is a string that is not empty, the four checks (longer
  than 64 characters, the pattern, two hyphens in a row, equality with the last
  segment of the directory path) are made one after the other, whatever the others
  found, and each one that fails adds its one error; the description check follows.
  The error of the last check quotes the name and the directory name.
\<close>

theorem string_name_checks:
  "skill_md fs = Some content \<Longrightarrow> fm_match content = Some (header, body)
   \<Longrightarrow> L header = Inr (DocDict fm) \<Longrightarrow> fm ''name'' = Some (PyStr n) \<Longrightarrow> n \<noteq> []
   \<Longrightarrow> validate_skill L fs d =
         Inr ((if 64 < length n then [err_name_long n] else [])
              @ (if \<not> name_pattern n then [err_name_pattern n] else [])
              @ (if py_in ''--'' n then [err_name_hyphens n] else [])
              @ (if n \<noteq> dir_name d then [err_name_dir n (dir_name d)] else [])
              @ check_description fm,
              check_license fm @ check_body body
              @ check_toc (references fs) @ check_nested (references fs))
       \<and> sublist n (err_name_dir n (dir_name d))
       \<and> sublist (dir_name d) (err_name_dir n (dir_name d))"
proof -
  assume a: "skill_md fs = Some content" "fm_match content = Some (header, body)"
    "L header = Inr (DocDict fm)" "fm ''name'' = Some (PyStr n)" "n \<noteq> []"
  have v: "validate_skill L fs d =
         Inr ((if 64 < length n then [err_name_long n] else [])
              @ (if \<not> name_pattern n then [err_name_pattern n] else [])
              @ (if py_in ''--'' n then [err_name_hyphens n] else [])
              @ (if n \<noteq> dir_name d then [err_name_dir n (dir_name d)] else [])
              @ check_description fm,
              check_license fm @ check_body body
              @ check_toc (references fs) @ check_nested (references fs))"
    using a by (simp add: validate_skill_def check_name_def dict_get_def name_errors_def)
  have "err_name_dir n (dir_name d)
        = ([CHR 0x27] @ ''name' ('') @ n @ ('') does not match directory name (''
            @ dir_name d @ '')'')"
    by (simp add: err_name_dir_def)
  then have s1: "sublist n (err_name_dir n (dir_name d))"
    unfolding sublist_def by blast
  have "err_name_dir n (dir_name d)
        = ([CHR 0x27] @ ''name' ('' @ n @ '') does not match directory name ('')
           @ dir_name d @ '')''"
    by (simp add: err_name_dir_def)
  then have s2: "sublist (dir_name d) (err_name_dir n (dir_name d))"
    unfolding sublist_def by blast
  from v s1 s2 show ?thesis by simp
qed

lemma name_examples:
  "\<not> name_pattern ''My-Skill''" "\<not> py_in ''--'' ''My-Skill''"
  "dir_name ''skills/My-Skill'' = ''My-Skill''"
  "name_pattern ''my--skill''" "py_in ''--'' ''my--skill''"
  "dir_name ''skills/my--skill'' = ''my--skill''"
  "name_pattern ''bar''" "\<not> py_in ''--'' ''bar''" "dir_name ''foo'' = ''foo''"
  by code_simp+

lemma desc_example:
  "check_description [''name'' \<mapsto> v, ''description'' \<mapsto> PyStr ''Does things'',
                      ''license'' \<mapsto> PyStr ''MIT''] = []"
  by (simp add: check_description_def dict_get_def py_strip_def is_space_def collapse_ws_def)

lemma body_example: "check_body ''# Body'' = []"
  by code_simp

theorem string_name_checks_witness:
  "validate_skill
     (\<lambda>h. Inr (DocDict [''name'' \<mapsto> PyStr ''My-Skill'',
                        ''description'' \<mapsto> PyStr ''Does things'', ''license'' \<mapsto> PyStr ''MIT'']))
     \<lparr>skill_md = Some (skill_text ''{name: My-Skill, description: Does things, license: MIT}''
                         ''# Body''),
      references = None\<rparr> ''skills/My-Skill''
     = Inr ([err_name_pattern ''My-Skill''], [])
   \<and> validate_skill
     (\<lambda>h. Inr (DocDict [''name'' \<mapsto> PyStr ''my--skill'',
                        ''description'' \<mapsto> PyStr ''Does things'', ''license'' \<mapsto> PyStr ''MIT'']))
     \<lparr>skill_md = Some (skill_text ''{name: my--skill, description: Does things, license: MIT}''
                         ''# Body''),
      references = None\<rparr> ''skills/my--skill''
     = Inr ([err_name_hyphens ''my--skill''], [])
   \<and> validate_skill
     (\<lambda>h. Inr (DocDict [''name'' \<mapsto> PyStr ''bar'',
                        ''description'' \<mapsto> PyStr ''Does things'', ''license'' \<mapsto> PyStr ''MIT'']))
     \<lparr>skill_md = Some (skill_text ''{name: bar, description: Does things, license: MIT}''
                         ''# Body''),
      references = None\<rparr> ''foo''
     = Inr ([err_name_dir ''bar'' ''foo''], [])
   \<and> sublist ''bar'' (err_name_dir ''bar'' ''foo'')
   \<and> sublist ''foo'' (err_name_dir ''bar'' ''foo'')"
proof -
  have f1: "fm_match (skill_text ''{name: My-Skill, description: Does things, license: MIT}''
                ''# Body'')
            = Some (''{name: My-Skill, description: Does things, license: MIT}'', ''# Body'')"
    by (rule fm_match_skill_text) (simp_all add: is_space_def LF_def)
  have f2: "fm_match (skill_text ''{name: my--skill, description: Does things, license: MIT}''
                ''# Body'')
            = Some (''{name: my--skill, description: Does things, license: MIT}'', ''# Body'')"
    by (rule fm_match_skill_text) (simp_all add: is_space_def LF_def)
  have f3: "fm_match (skill_text ''{name: bar, description: Does things, license: MIT}''
                ''# Body'')
            = Some (''{name: bar, description: Does things, license: MIT}'', ''# Body'')"
    by (rule fm_match_skill_text) (simp_all add: is_space_def LF_def)
  show ?thesis
    using string_name_checks
        [where fs = "\<lparr>skill_md = Some (skill_text
                        ''{name: My-Skill, description: Does things, license: MIT}'' ''# Body''),
                       references = None\<rparr>"
           and L = "\<lambda>h. Inr (DocDict [''name'' \<mapsto> PyStr ''My-Skill'',
                  ''description'' \<mapsto> PyStr ''Does things'', ''license'' \<mapsto> PyStr ''MIT''])"
           and n = "''My-Skill''" and d = "''skills/My-Skill''", OF _ f1]
      string_name_checks
        [where fs = "\<lparr>skill_md = Some (skill_text
                        ''{name: my--skill, description: Does things, license: MIT}'' ''# Body''),
                       references = None\<rparr>"
           and L = "\<lambda>h. Inr (DocDict [''name'' \<mapsto> PyStr ''my--skill'',
                  ''description'' \<mapsto> PyStr ''Does things'', ''license'' \<mapsto> PyStr ''MIT''])"
           and n = "''my--skill''" and d = "''skills/my--skill''", OF _ f2]
      string_name_checks
        [where fs = "\<lparr>skill_md = Some (skill_text
                        ''{name: bar, description: Does things, license: MIT}'' ''# Body''),
                       references = None\<rparr>"
           and L = "\<lambda>h. Inr (DocDict [''name'' \<mapsto> PyStr ''bar'',
                  ''description'' \<mapsto> PyStr ''Does things'', ''license'' \<mapsto> PyStr ''MIT''])"
           and n = "''bar''" and d = "''foo''", OF _ f3]
    by (simp add: name_examples desc_example body_example check_license_def
        check_toc_def check_nested_def)
qed

subsection \<open>The reference files\<close>

lemma toc_pass_concat: "toc_pass entries fnames = concat (map (toc_step entries) fnames)"
  by (induction fnames) simp_all

lemma nested_pass_concat:
  "nested_pass entries fnames = concat (map (nested_step entries) fnames)"
  by (induction fnames) simp_all

lemma py_in_sublist: "py_in p s \<longleftrightarrow> sublist p s"
  by (induction s) (simp_all add: sublist_Cons_right)

lemma readlines_from_line:
  "LF \<notin> set l \<Longrightarrow> readlines_from cur (l @ LF # t) = (cur @ l @ [LF]) # readlines_from [] t"
  by (induction l arbitrary: cur) auto

lemma readlines_from_last:
  "LF \<notin> set l \<Longrightarrow> readlines_from cur l = (if cur @ l = [] then [] else [cur @ l])"
  by (induction l arbitrary: cur) auto

lemma findall_from_no_bracket:
  "CHR ''['' \<notin> set s \<Longrightarrow> findall_from k s = []"
  by (induction s arbitrary: k) (auto simp: link_at_def)

text \<open>A reference file of \<open>n\<close> lines, none of which is a heading or holds a link.\<close>

definition ref_of_lines :: "nat \<Rightarrow> string" where
  "ref_of_lines n = concat (replicate n (''line'' @ [LF]))"

lemma readlines_ref_of_lines: "readlines (ref_of_lines n) = replicate n (''line'' @ [LF])"
proof (induction n)
  case 0
  show ?case by (simp add: readlines_def ref_of_lines_def)
next
  case (Suc n)
  have "readlines_from [] (''line'' @ LF # ref_of_lines n)
        = ([] @ ''line'' @ [LF]) # readlines_from [] (ref_of_lines n)"
    by (rule readlines_from_line) (simp add: LF_def)
  with Suc show ?case by (simp add: readlines_def ref_of_lines_def)
qed

lemma set_ref_of_lines: "set (ref_of_lines n) \<subseteq> set (''line'' @ [LF])"
  by (auto simp: ref_of_lines_def)

lemma nested_ref_of_lines: "nested_warnings fname (ref_of_lines n) = []"
proof -
  have "CHR ''['' \<notin> set (ref_of_lines n)"
    using set_ref_of_lines[of n] by (auto simp: LF_def)
  then show ?thesis
    by (simp add: nested_warnings_def findall_links_def findall_from_no_bracket)
qed

lemma no_toc_token:
  "\<not> sublist ''table of contents'' (py_lower (concat (replicate k (''line'' @ [LF]))))"
  "\<not> sublist ''## contents'' (py_lower (concat (replicate k (''line'' @ [LF]))))"
proof -
  let ?h = "py_lower (concat (replicate k (''line'' @ [LF])))"
  have s: "set ?h \<subseteq> set (''line'' @ [LF])"
    by (auto simp: py_lower_def lower_char_def LF_def)
  show "\<not> sublist ''table of contents'' ?h"
  proof
    assume "sublist ''table of contents'' ?h"
    then have "set ''table of contents'' \<subseteq> set ?h" by (rule set_mono_sublist)
    then have "set ''table of contents'' \<subseteq> set (''line'' @ [LF])" using s by blast
    then show False by (simp add: LF_def)
  qed
  show "\<not> sublist ''## contents'' ?h"
  proof
    assume "sublist ''## contents'' ?h"
    then have "set ''## contents'' \<subseteq> set ?h" by (rule set_mono_sublist)
    then have "set ''## contents'' \<subseteq> set (''line'' @ [LF])" using s by blast
    then show False by (simp add: LF_def)
  qed
qed

lemma toc_ref_of_lines:
  "toc_warnings fname (ref_of_lines n)
   = (if 100 < n then [warn_toc fname n] else [])"
proof (cases "100 < n")
  case True
  then show ?thesis
    using no_toc_token[of 30]
    by (simp add: toc_warnings_def readlines_ref_of_lines py_in_sublist Let_def)
next
  case False
  then show ?thesis
    by (simp add: toc_warnings_def readlines_ref_of_lines)
qed

lemma sort_ex1:
  "sort [''long.md'', ''short.md'', ''notes.txt'', ''assets.md'']
   = [''assets.md'', ''long.md'', ''notes.txt'', ''short.md'']"
  by code_simp

lemma show_nat_101: "show_nat 101 = ''101''"
  by code_simp


lemma suffix_examples:
  "suffix ''.md'' ''long.md''" "suffix ''.md'' ''short.md''" "\<not> suffix ''.md'' ''notes.txt''"
  "suffix ''.md'' ''assets.md''"
  by code_simp+

text \<open>
  Past parsing, with a \<open>references\<close> directory and a name check that raises nothing,
  the table-of-contents pass adds to the warnings what its step gives for each entry of
  the directory, the names sorted. For an entry that is a regular file whose name ends
  in \<open>.md\<close> the step gives one warning, which names the file and the number of its
  lines, exactly when the file has more than 100 lines and the first 30 of them, joined
  and lower-cased, contain neither \<open>table of contents\<close> nor \<open>## contents\<close>; for every
  other entry it gives nothing. The names of a directory are distinct.
\<close>

lemma toc_rule:
  "skill_md fs = Some content \<Longrightarrow> fm_match content = Some (header, body)
   \<Longrightarrow> L header = Inr (DocDict fm) \<Longrightarrow> check_name fm d = Inr name_errs
   \<Longrightarrow> references fs = Some entries \<Longrightarrow> distinct (map fst entries)
   \<Longrightarrow> validate_skill L fs d =
         Inr (name_errs @ check_description fm,
              check_license fm @ check_body body
              @ concat (map (toc_step entries) (sort (map fst entries)))
              @ check_nested (references fs))
       \<and> (\<forall>(fname, node) \<in> set entries.
            toc_step entries fname =
              (case node of
                 NotFile \<Rightarrow> []
               | File text \<Rightarrow>
                   (let n = length (readlines text);
                        first30 = py_lower (concat (take 30 (readlines text)))
                    in if suffix ''.md'' fname \<and> 100 < n
                          \<and> \<not> sublist ''table of contents'' first30
                          \<and> \<not> sublist ''## contents'' first30
                       then [''references/'' @ fname @ '' ('' @ show_nat n
                             @ '' lines) has no Table of Contents (recommended for files > 100 lines)'']
                       else [])))"
proof -
  assume a: "skill_md fs = Some content" "fm_match content = Some (header, body)"
    "L header = Inr (DocDict fm)" "check_name fm d = Inr name_errs"
    "references fs = Some entries" "distinct (map fst entries)"
  have v: "validate_skill L fs d =
         Inr (name_errs @ check_description fm,
              check_license fm @ check_body body
              @ concat (map (toc_step entries) (sort (map fst entries)))
              @ check_nested (references fs))"
    using a by (simp add: validate_skill_def check_toc_def toc_pass_concat)
  have "toc_step entries fname =
              (case node of
                 NotFile \<Rightarrow> []
               | File text \<Rightarrow>
                   (let n = length (readlines text);
                        first30 = py_lower (concat (take 30 (readlines text)))
                    in if suffix ''.md'' fname \<and> 100 < n
                          \<and> \<not> sublist ''table of contents'' first30
                          \<and> \<not> sublist ''## contents'' first30
                       then [''references/'' @ fname @ '' ('' @ show_nat n
                             @ '' lines) has no Table of Contents (recommended for files > 100 lines)'']
                       else []))"
    if "(fname, node) \<in> set entries" for fname node
  proof -
    have "map_of entries fname = Some node" using that a(6) by simp
    then show ?thesis
      by (cases node)
         (simp_all add: toc_step_def toc_warnings_def endswith_def py_in_sublist
            warn_toc_def Let_def)
  qed
  with v show ?thesis by blast
qed

lemma toc_rule_example:
  "validate_skill
     (\<lambda>h. Inr (DocDict [''name'' \<mapsto> PyStr ''my-skill'',
                        ''description'' \<mapsto> PyStr ''Does things'', ''license'' \<mapsto> PyStr ''MIT'']))
     \<lparr>skill_md = Some (skill_text ''{name: my-skill, description: Does things, license: MIT}''
                         ''# Body''),
      references = Some [(''long.md'', File (ref_of_lines 101)),
                         (''short.md'', File (ref_of_lines 100)),
                         (''notes.txt'', File (ref_of_lines 101)),
                         (''assets.md'', NotFile)]\<rparr> ''skills/my-skill''
     = Inr ([], [''references/long.md (101 lines) has no Table of Contents (recommended for files > 100 lines)''])"
proof -
  let ?h = "''{name: my-skill, description: Does things, license: MIT}''"
  have fm: "fm_match (skill_text ?h ''# Body'') = Some (?h, ''# Body'')"
    by (rule fm_match_skill_text[OF header_ok]) (simp add: is_space_def)
  show ?thesis
    using toc_rule
        [where fs = "\<lparr>skill_md = Some (skill_text ?h ''# Body''),
                       references = Some [(''long.md'', File (ref_of_lines 101)),
                         (''short.md'', File (ref_of_lines 100)),
                         (''notes.txt'', File (ref_of_lines 101)),
                         (''assets.md'', NotFile)]\<rparr>"
           and L = "\<lambda>h. Inr (DocDict [''name'' \<mapsto> PyStr ''my-skill'',
                  ''description'' \<mapsto> PyStr ''Does things'', ''license'' \<mapsto> PyStr ''MIT''])"
           and d = "''skills/my-skill''"
           and entries = "[(''long.md'', File (ref_of_lines 101)),
                         (''short.md'', File (ref_of_lines 100)),
                         (''notes.txt'', File (ref_of_lines 101)),
                         (''assets.md'', NotFile)]", OF _ fm _ good_frontmatter(1)]
    by (simp add: good_frontmatter body_example sort_ex1 suffix_examples
        readlines_ref_of_lines no_toc_token[of 30, simplified] show_nat_101
        check_nested_def nested_step_def endswith_def nested_ref_of_lines)
qed


text \<open>
  A heading in capitals counts: the first 30 lines are lower-cased before the search,
  so a file of 102 lines that opens with \<open>## Contents\<close> draws no warning.
\<close>

lemma toc_heading_example:
  "toc_warnings fname (''## Contents'' @ [LF] @ ref_of_lines 101) = []"
proof -
  have "readlines_from [] (''## Contents'' @ LF # ref_of_lines 101)
        = ([] @ ''## Contents'' @ [LF]) # readlines_from [] (ref_of_lines 101)"
    by (rule readlines_from_line) (simp add: LF_def)
  then have r: "readlines (''## Contents'' @ [LF] @ ref_of_lines 101)
                = (''## Contents'' @ [LF]) # replicate 101 (''line'' @ [LF])"
    using readlines_ref_of_lines[of 101] by (simp add: readlines_def)
  have "py_lower ''## Contents'' = ''## contents''"
    by code_simp
  then have "prefix ''## contents''
               (py_lower (concat (take 30 ((''## Contents'' @ [LF]) # replicate 101 (''line'' @ [LF])))))"
    by (simp add: py_lower_def)
  then have "sublist ''## contents''
               (py_lower (concat (take 30 ((''## Contents'' @ [LF]) # replicate 101 (''line'' @ [LF])))))"
    by (rule prefix_imp_sublist)
  then show ?thesis
    by (simp only: toc_warnings_def r Let_def py_in_sublist) simp
qed

lemma step_at_most_one:
  "length (toc_step entries fname) \<le> 1" "length (nested_step entries fname) \<le> 1"
  by (simp_all add: toc_step_def nested_step_def toc_warnings_def nested_warnings_def Let_def
      split: option.split node.split)

lemma sort_ex2:
  "sort [''d.md'', ''c.md'', ''b.md'', ''a.md''] = [''a.md'', ''b.md'', ''c.md'', ''d.md'']"
  by code_simp

lemma suffix_examples2:
  "suffix ''.md'' ''a.md''" "suffix ''.md'' ''b.md''" "suffix ''.md'' ''c.md''"
  "suffix ''.md'' ''d.md''"
  by code_simp+

lemma link_examples:
  "findall_links ''[see](references/other.md)'' = [''[see](references/other.md)'']"
  "findall_links ''[more](./extra.md)'' = [''[more](./extra.md)'']"
  "findall_links ''[see](https://example.com/other.md)'' = []"
  "findall_links ''[see](docs/references/other.md)'' = []"
  by code_simp+

lemma nested_examples:
  "nested_warnings fname ''[see](references/other.md)''
   = [warn_nested fname [''[see](references/other.md)'']]"
  "nested_warnings fname ''[more](./extra.md)'' = [warn_nested fname [''[more](./extra.md)'']]"
  "nested_warnings fname ''[see](https://example.com/other.md)'' = []"
  "nested_warnings fname ''[see](docs/references/other.md)'' = []"
  by (simp_all add: nested_warnings_def link_examples)

lemma short_file_no_toc_warning:
  "toc_warnings fname ''[see](references/other.md)'' = []"
  "toc_warnings fname ''[more](./extra.md)'' = []"
  "toc_warnings fname ''[see](https://example.com/other.md)'' = []"
  "toc_warnings fname ''[see](docs/references/other.md)'' = []"
  by (simp_all add: toc_warnings_def readlines_def LF_def)

text \<open>
  C10. Past parsing, with a \<open>references\<close> directory, the warnings end with what the
  table-of-contents step gives for each name of the directory, the names in sorted
  order, followed by what the nested-link step gives for each name, in the same sorted
  order; each step gives at most one warning. So within a pass the warnings follow the
  sorted names, and every table-of-contents warning stands before every nested-link
  warning. The order on names is the lexicographic one on the code points. The name
  check is taken to raise nothing.
\<close>

theorem reference_warnings_order:
  "skill_md fs = Some content \<Longrightarrow> fm_match content = Some (header, body)
   \<Longrightarrow> L header = Inr (DocDict fm) \<Longrightarrow> check_name fm d = Inr name_errs
   \<Longrightarrow> references fs = Some entries \<Longrightarrow> names = sort (map fst entries)
   \<Longrightarrow> validate_skill L fs d =
         Inr (name_errs @ check_description fm,
              check_license fm @ check_body body
              @ concat (map (toc_step entries) names)
              @ concat (map (nested_step entries) names))
       \<and> sorted names \<and> set names = fst ` set entries \<and> length names = length entries
       \<and> (\<forall>fname \<in> set names. length (toc_step entries fname) \<le> 1
                                \<and> length (nested_step entries fname) \<le> 1)"
proof -
  assume a: "skill_md fs = Some content" "fm_match content = Some (header, body)"
    "L header = Inr (DocDict fm)" "check_name fm d = Inr name_errs"
    "references fs = Some entries" "names = sort (map fst entries)"
  have v: "validate_skill L fs d =
         Inr (name_errs @ check_description fm,
              check_license fm @ check_body body
              @ concat (map (toc_step entries) names)
              @ concat (map (nested_step entries) names))"
    using a by (simp add: validate_skill_def check_toc_def check_nested_def toc_pass_concat
        nested_pass_concat)
  have s: "sorted names" "set names = fst ` set entries" "length names = length entries"
    using a(6) by simp_all
  show ?thesis using v s step_at_most_one by blast
qed

theorem reference_warnings_order_witness:
  "validate_skill
     (\<lambda>h. Inr (DocDict [''name'' \<mapsto> PyStr ''my-skill'',
                        ''description'' \<mapsto> PyStr ''Does things'', ''license'' \<mapsto> PyStr ''MIT'']))
     \<lparr>skill_md = Some (skill_text ''{name: my-skill, description: Does things, license: MIT}''
                         ''# Body''),
      references = Some [(''d.md'', File (ref_of_lines 101)),
                         (''c.md'', File ''[see](references/other.md)''),
                         (''b.md'', File (ref_of_lines 102)),
                         (''a.md'', File ''[more](./extra.md)'')]\<rparr> ''skills/my-skill''
     = Inr ([], [warn_toc ''b.md'' 102, warn_toc ''d.md'' 101,
                 warn_nested ''a.md'' [''[more](./extra.md)''],
                 warn_nested ''c.md'' [''[see](references/other.md)'']])"
proof -
  let ?h = "''{name: my-skill, description: Does things, license: MIT}''"
  have fm: "fm_match (skill_text ?h ''# Body'') = Some (?h, ''# Body'')"
    by (rule fm_match_skill_text[OF header_ok]) (simp add: is_space_def)
  show ?thesis
    using reference_warnings_order
        [where fs = "\<lparr>skill_md = Some (skill_text ?h ''# Body''),
                       references = Some [(''d.md'', File (ref_of_lines 101)),
                         (''c.md'', File ''[see](references/other.md)''),
                         (''b.md'', File (ref_of_lines 102)),
                         (''a.md'', File ''[more](./extra.md)'')]\<rparr>"
           and L = "\<lambda>h. Inr (DocDict [''name'' \<mapsto> PyStr ''my-skill'',
                  ''description'' \<mapsto> PyStr ''Does things'', ''license'' \<mapsto> PyStr ''MIT''])"
           and d = "''skills/my-skill''"
           and entries = "[(''d.md'', File (ref_of_lines 101)),
                         (''c.md'', File ''[see](references/other.md)''),
                         (''b.md'', File (ref_of_lines 102)),
                         (''a.md'', File ''[more](./extra.md)'')]"
           and names = "[''a.md'', ''b.md'', ''c.md'', ''d.md'']",
         OF _ fm _ good_frontmatter(1)]
    by (simp add: good_frontmatter body_example sort_ex2 suffix_examples2
        toc_step_def nested_step_def endswith_def toc_ref_of_lines nested_ref_of_lines
        short_file_no_toc_warning nested_examples)
qed

subsection \<open>Trimming and collapsing white space\<close>

lemma py_strip_empty_iff: "py_strip s = [] \<longleftrightarrow> (\<forall>c\<in>set s. is_space c)"
proof -
  have "py_strip s = [] \<longleftrightarrow> (\<forall>c\<in>set (dropWhile is_space s). is_space c)"
    by (simp add: py_strip_def dropWhile_eq_Nil_conv)
  also have "\<dots> \<longleftrightarrow> dropWhile is_space s = []"
  proof
    assume a: "\<forall>c\<in>set (dropWhile is_space s). is_space c"
    show "dropWhile is_space s = []"
    proof (rule ccontr)
      assume n: "dropWhile is_space s \<noteq> []"
      then have "\<not> is_space (hd (dropWhile is_space s))" by (rule hd_dropWhile)
      moreover have "hd (dropWhile is_space s) \<in> set (dropWhile is_space s)"
        using n by simp
      ultimately show False using a by blast
    qed
  next
    assume d: "dropWhile is_space s = []"
    show "\<forall>c\<in>set (dropWhile is_space s). is_space c" unfolding d by simp
  qed
  also have "\<dots> \<longleftrightarrow> (\<forall>c\<in>set s. is_space c)"
    by (simp add: dropWhile_eq_Nil_conv)
  finally show ?thesis .
qed

lemma collapse_from_append:
  "collapse_from b (xs @ ys)
   = collapse_from b xs @ collapse_from (if xs = [] then b else is_space (last xs)) ys"
  by (induction xs arbitrary: b) auto

lemma dropWhile_collapse_from:
  "dropWhile is_space (collapse_from b s) = collapse_from b' (dropWhile is_space s)"
proof (induction s arbitrary: b)
  case Nil
  show ?case by simp
next
  case (Cons c cs)
  show ?case
  proof (cases "is_space c")
    case True
    then show ?thesis using Cons[of True] by (simp add: is_space_def)
  next
    case False
    then show ?thesis by simp
  qed
qed

lemma rstrip_snoc:
  "rev (dropWhile is_space (rev (xs @ [c])))
   = (if is_space c then rev (dropWhile is_space (rev xs)) else xs @ [c])"
  by simp

lemma rstrip_collapse_from:
  "rev (dropWhile is_space (rev (collapse_from b s)))
   = collapse_from b (rev (dropWhile is_space (rev s)))"
proof (induction s rule: rev_induct)
  case Nil
  show ?case by simp
next
  case (snoc c xs)
  show ?case
  proof (cases "is_space c")
    case True
    have "collapse_from b (xs @ [c]) = collapse_from b xs
          \<or> collapse_from b (xs @ [c]) = collapse_from b xs @ [CHR '' '']"
      using True by (simp add: collapse_from_append)
    then have "rev (dropWhile is_space (rev (collapse_from b (xs @ [c]))))
               = rev (dropWhile is_space (rev (collapse_from b xs)))"
      by (auto simp: is_space_def)
    with snoc True show ?thesis by simp
  next
    case False
    then show ?thesis by (simp add: collapse_from_append)
  qed
qed

text \<open>Trimming and collapsing may be done in either order.\<close>

lemma collapse_strip_commute: "collapse_ws (py_strip s) = py_strip (collapse_ws s)"
proof -
  have "py_strip (collapse_ws s)
        = rev (dropWhile is_space (rev (collapse_from False (dropWhile is_space s))))"
    by (simp add: py_strip_def collapse_ws_def dropWhile_collapse_from[where b' = False])
  also have "\<dots> = collapse_from False (rev (dropWhile is_space (rev (dropWhile is_space s))))"
    by (rule rstrip_collapse_from)
  finally show ?thesis by (simp add: py_strip_def collapse_ws_def)
qed


lemma py_strip_trailing:
  assumes "\<forall>c\<in>set b. is_space c"
  shows "py_strip (s @ b) = py_strip s"
proof (cases "\<forall>c\<in>set s. is_space c")
  case True
  then have "\<forall>c\<in>set (s @ b). is_space c" using assms by auto
  then have "py_strip (s @ b) = []" by (simp only: py_strip_empty_iff)
  moreover have "py_strip s = []" using True by (simp only: py_strip_empty_iff)
  ultimately show ?thesis by simp
next
  case False
  then obtain x where "x \<in> set s" "\<not> is_space x" by blast
  then have "dropWhile is_space (s @ b) = dropWhile is_space s @ b"
    by (rule dropWhile_append1)
  moreover have "dropWhile is_space (rev b @ rev (dropWhile is_space s))
                 = dropWhile is_space (rev (dropWhile is_space s))"
    by (rule dropWhile_append2) (use assms in auto)
  ultimately show ?thesis by (simp add: py_strip_def)
qed

subsection \<open>A name that is not a string\<close>

text \<open>
  On a name that is truthy and not a string (the \<open>123\<close> of \<open>name: 123\<close>, a list, a
  nested mapping) \<open>len(name)\<close> raises \<open>TypeError\<close>. The exception leaves
  \<open>validate_skill\<close>: no list is returned, whatever the later checks would have found.
\<close>

lemma check_name_type_error:
  "fm ''name'' = Some v \<Longrightarrow> truthy v \<Longrightarrow> \<forall>n. v \<noteq> PyStr n
   \<Longrightarrow> check_name fm d = Inl TypeError"
  by (cases v) (simp_all add: check_name_def dict_get_def)

lemma validate_type_error:
  "skill_md fs = Some content \<Longrightarrow> fm_match content = Some (header, body)
   \<Longrightarrow> L header = Inr (DocDict fm) \<Longrightarrow> fm ''name'' = Some v \<Longrightarrow> truthy v
   \<Longrightarrow> \<forall>n. v \<noteq> PyStr n \<Longrightarrow> validate_skill L fs d = Inl TypeError"
  by (simp add: validate_skill_def check_name_type_error)

lemma fm_match_name_123:
  "t = [] \<or> \<not> is_space (hd t)
   \<Longrightarrow> fm_match (skill_text ''name: 123'' t) = Some (''name: 123'', t)"
  by (rule fm_match_skill_text) (simp_all add: is_space_def LF_def)

text \<open>
  C2. The three fatal conditions are not the only ones that cut the pass short. When
  the header parses to a mapping whose name is truthy and not a string,
  \<open>validate_skill\<close> raises \<open>TypeError\<close> in step 3: it returns no error list and no
  warning list, and none of the later checks contributes anything.
\<close>

theorem nonstring_name_aborts_checks:
  "skill_md fs = Some content \<Longrightarrow> fm_match content = Some (header, body)
   \<Longrightarrow> L header = Inr (DocDict fm) \<Longrightarrow> fm ''name'' = Some v \<Longrightarrow> truthy v
   \<Longrightarrow> \<forall>n. v \<noteq> PyStr n
   \<Longrightarrow> validate_skill L fs d = Inl TypeError
       \<and> (\<forall>es ws. validate_skill L fs d \<noteq> Inr (es, ws))"
  by (simp add: validate_type_error)

theorem nonstring_name_aborts_checks_witness:
  "validate_skill (\<lambda>h. Inr (DocDict [''name'' \<mapsto> PyInt 123]))
     \<lparr>skill_md = Some (skill_text ''name: 123'' ''# Body''), references = None\<rparr>
     ''skills/my-skill'' = Inl TypeError
   \<and> check_description [''name'' \<mapsto> PyInt 123] = [err_desc_missing]
   \<and> check_license [''name'' \<mapsto> PyInt 123] = [warn_license]"
proof -
  have fm: "fm_match (skill_text ''name: 123'' ''# Body'') = Some (''name: 123'', ''# Body'')"
    by (rule fm_match_name_123) (simp add: is_space_def)
  show ?thesis
    using nonstring_name_aborts_checks
        [where fs = "\<lparr>skill_md = Some (skill_text ''name: 123'' ''# Body''),
                       references = None\<rparr>"
           and L = "\<lambda>h. Inr (DocDict [''name'' \<mapsto> PyInt 123])"
           and v = "PyInt 123" and d = "''skills/my-skill''", OF _ fm]
    by (simp add: check_description_def check_license_def dict_get_def py_strip_def)
qed

text \<open>
  C8. A body of more than 500 lines draws no warning when the name is truthy and not a
  string: the body check would give its warning, with the number of lines, but
  \<open>validate_skill\<close> raises \<open>TypeError\<close> in step 3, before step 6, and returns no
  warning list.
\<close>

theorem body_warning_lost_on_nonstring_name:
  "skill_md fs = Some content \<Longrightarrow> fm_match content = Some (header, body)
   \<Longrightarrow> L header = Inr (DocDict fm) \<Longrightarrow> fm ''name'' = Some v \<Longrightarrow> truthy v
   \<Longrightarrow> \<forall>n. v \<noteq> PyStr n
   \<Longrightarrow> n = length (py_splitlines (py_strip body)) \<Longrightarrow> 500 < n
   \<Longrightarrow> check_body body = [warn_body n] \<and> validate_skill L fs d = Inl TypeError"
  by (simp add: validate_type_error check_body_def Let_def)

theorem body_warning_lost_on_nonstring_name_witness:
  "check_body (body_of_lines 500 @ [LF, CHR '' '', LF])
     = [''SKILL.md body is 501 lines (recommended max: 500)'']
   \<and> validate_skill (\<lambda>h. Inr (DocDict [''name'' \<mapsto> PyInt 123]))
     \<lparr>skill_md = Some (skill_text ''name: 123'' (body_of_lines 500 @ [LF, CHR '' '', LF])),
      references = None\<rparr>
     ''skills/my-skill'' = Inl TypeError"
proof -
  let ?b = "body_of_lines 500 @ [LF, CHR '' '', LF]"
  have "body_of_lines 500 \<noteq> []"
    by (simp add: body_of_lines_def)
  then have "hd ?b = CHR ''l''"
    by (simp add: hd_body_of_lines)
  then have fm: "fm_match (skill_text ''name: 123'' ?b) = Some (''name: 123'', ?b)"
    by (intro fm_match_name_123) (simp add: is_space_def)
  have "py_strip ?b = py_strip (body_of_lines 500)"
    by (rule py_strip_trailing) (simp add: is_space_def LF_def)
  then have n: "length (py_splitlines (py_strip ?b)) = 501"
    by (simp add: length_body_of_lines)
  show ?thesis
    using body_warning_lost_on_nonstring_name
        [where fs = "\<lparr>skill_md = Some (skill_text ''name: 123'' ?b), references = None\<rparr>"
           and L = "\<lambda>h. Inr (DocDict [''name'' \<mapsto> PyInt 123])"
           and v = "PyInt 123" and d = "''skills/my-skill''" and n = 501, OF _ fm]
    by (simp add: n warn_body_def show_nat_501)
qed

text \<open>
  C7. A reference file of more than 100 lines with no table of contents draws no
  warning when the name is truthy and not a string: the table-of-contents step would
  give its warning for the file, but \<open>validate_skill\<close> raises \<open>TypeError\<close> in step 3,
  before step 7, and returns no warning list.
\<close>

theorem toc_warning_lost_on_nonstring_name:
  "skill_md fs = Some content \<Longrightarrow> fm_match content = Some (header, body)
   \<Longrightarrow> L header = Inr (DocDict fm) \<Longrightarrow> fm ''name'' = Some v \<Longrightarrow> truthy v
   \<Longrightarrow> \<forall>n. v \<noteq> PyStr n
   \<Longrightarrow> references fs = Some entries \<Longrightarrow> distinct (map fst entries)
   \<Longrightarrow> (fname, File ref_text) \<in> set entries \<Longrightarrow> suffix ''.md'' fname
   \<Longrightarrow> n = length (readlines ref_text) \<Longrightarrow> 100 < n
   \<Longrightarrow> \<not> sublist ''table of contents'' (py_lower (concat (take 30 (readlines ref_text))))
   \<Longrightarrow> \<not> sublist ''## contents'' (py_lower (concat (take 30 (readlines ref_text))))
   \<Longrightarrow> toc_step entries fname = [warn_toc fname n]
       \<and> validate_skill L fs d = Inl TypeError"
  by (simp add: validate_type_error toc_step_def toc_warnings_def endswith_def
      py_in_sublist Let_def)

theorem toc_warning_lost_on_nonstring_name_witness:
  "toc_step [(''long.md'', File (ref_of_lines 101))] ''long.md''
     = [''references/long.md (101 lines) has no Table of Contents (recommended for files > 100 lines)'']
   \<and> validate_skill (\<lambda>h. Inr (DocDict [''name'' \<mapsto> PyInt 123]))
     \<lparr>skill_md = Some (skill_text ''name: 123'' ''# Body''),
      references = Some [(''long.md'', File (ref_of_lines 101))]\<rparr>
     ''skills/my-skill'' = Inl TypeError"
proof -
  have fm: "fm_match (skill_text ''name: 123'' ''# Body'') = Some (''name: 123'', ''# Body'')"
    by (rule fm_match_name_123) (simp add: is_space_def)
  show ?thesis
    using toc_warning_lost_on_nonstring_name
        [where fs = "\<lparr>skill_md = Some (skill_text ''name: 123'' ''# Body''),
                       references = Some [(''long.md'', File (ref_of_lines 101))]\<rparr>"
           and L = "\<lambda>h. Inr (DocDict [''name'' \<mapsto> PyInt 123])"
           and v = "PyInt 123" and d = "''skills/my-skill''" and n = 101
           and entries = "[(''long.md'', File (ref_of_lines 101))]"
           and fname = "''long.md''" and ref_text = "ref_of_lines 101", OF _ fm]
    by (simp add: suffix_examples readlines_ref_of_lines no_toc_token[of 30, simplified]
        warn_toc_def show_nat_101)
qed

subsection \<open>The description\<close>

text \<open>The name check raises nothing when the name is absent, falsy or a string.\<close>

lemma check_name_returns_iff:
  "(\<exists>name_errs. check_name fm d = Inr name_errs)
   \<longleftrightarrow> (\<forall>v. fm ''name'' = Some v \<longrightarrow> truthy v \<longrightarrow> (\<exists>n. v = PyStr n))"
proof (cases "fm ''name''")
  case None
  then show ?thesis by (simp add: check_name_def dict_get_def)
next
  case (Some v)
  then show ?thesis by (cases v) (simp_all add: check_name_def dict_get_def)
qed

lemma check_description_rule:
  "check_description fm =
     (case fm ''description'' of
        None \<Rightarrow> [err_desc_missing]
      | Some v \<Rightarrow>
          if \<not> truthy v \<or> (\<forall>c\<in>set (py_str v). is_space c) then [err_desc_missing]
          else (let n = length (py_strip (collapse_ws (py_str v)))
                in if 1024 < n
                   then [[CHR 0x27] @ ''description' exceeds 1024 characters (''
                         @ show_nat n @ '' chars)'']
                   else []))"
proof (cases "fm ''description''")
  case None
  then show ?thesis by (simp add: check_description_def dict_get_def py_strip_def)
next
  case (Some v)
  then show ?thesis
    by (simp add: check_description_def dict_get_def py_strip_empty_iff
        collapse_strip_commute err_desc_long_def Let_def)
qed

lemma collapse_from_replicate_a:
  "collapse_from b (replicate n (CHR ''a'')) = replicate n (CHR ''a'')"
  by (induction n arbitrary: b) (simp_all add: is_space_def)

lemma collapse_example_long:
  "py_strip (collapse_ws (replicate 1024 (CHR ''a'') @ [CHR '' '', CHR '' '', LF, CHR '' '', CHR ''b'']))
   = replicate 1024 (CHR ''a'') @ '' b''"
proof -
  have "collapse_ws (replicate 1024 (CHR ''a'') @ [CHR '' '', CHR '' '', LF, CHR '' '', CHR ''b''])
        = replicate 1024 (CHR ''a'') @ '' b''"
    by (simp add: collapse_ws_def collapse_from_append collapse_from_replicate_a
        is_space_def LF_def)
  moreover have "py_strip (replicate 1024 (CHR ''a'') @ '' b'') = replicate 1024 (CHR ''a'') @ '' b''"
    by (rule py_strip_id) (simp_all add: is_space_def)
  ultimately show ?thesis by simp
qed

lemma collapse_example_short:
  "py_strip (collapse_ws (replicate 1000 (CHR ''a'') @ replicate 100 LF @ ''b''))
   = replicate 1000 (CHR ''a'') @ '' b''"
proof -
  have r: "collapse_from True (replicate n LF @ ''b'') = ''b''" for n
    by (induction n) (simp_all add: is_space_def LF_def)
  have "replicate 100 LF = LF # replicate 99 LF" by (simp add: numeral_eq_Suc)
  then have "collapse_from False (replicate 100 LF @ ''b'') = '' b''"
    using r[of 99] by (simp add: LF_space)
  then have "collapse_ws (replicate 1000 (CHR ''a'') @ replicate 100 LF @ ''b'')
        = replicate 1000 (CHR ''a'') @ '' b''"
    by (simp add: collapse_ws_def collapse_from_append[of _ "replicate 1000 (CHR ''a'')"]
        collapse_from_replicate_a is_space_def)
  moreover have "py_strip (replicate 1000 (CHR ''a'') @ '' b'') = replicate 1000 (CHR ''a'') @ '' b''"
    by (rule py_strip_id) (simp_all add: is_space_def)
  ultimately show ?thesis by simp
qed

lemma show_nat_1026: "show_nat 1026 = ''1026''"
  by code_simp

text \<open>
  C5, as stated, fails on a description that is there, is not empty and is not white
  space, but is falsy: for \<open>description: 0\<close> the value is the number 0, whose string
  \<open>0\<close> has one character, and the validator reports the description as missing or
  empty.
\<close>

theorem falsy_description_counterexample:
  "validate_skill
     (\<lambda>h. Inr (DocDict [''name'' \<mapsto> PyStr ''my-skill'', ''description'' \<mapsto> PyInt 0,
                        ''license'' \<mapsto> PyStr ''MIT'']))
     \<lparr>skill_md = Some (skill_text ''{name: my-skill, description: 0, license: MIT}''
                         ''# Body''),
      references = None\<rparr> ''skills/my-skill''
     = Inr ([err_desc_missing], [])
   \<and> py_strip (py_str (PyInt 0)) = ''0''
   \<and> length (py_strip (collapse_ws (py_str (PyInt 0)))) = 1"
proof -
  have "fm_match (skill_text ''{name: my-skill, description: 0, license: MIT}'' ''# Body'')
        = Some (''{name: my-skill, description: 0, license: MIT}'', ''# Body'')"
    by (rule fm_match_skill_text) (simp_all add: is_space_def LF_def)
  moreover have "check_name [''name'' \<mapsto> PyStr ''my-skill'', ''description'' \<mapsto> PyInt 0,
                        ''license'' \<mapsto> PyStr ''MIT''] ''skills/my-skill'' = Inr []"
    by code_simp
  moreover have "py_strip (py_str (PyInt 0)) = ''0''"
    by code_simp
  moreover have "length (py_strip (collapse_ws (py_str (PyInt 0)))) = 1"
    by code_simp
  ultimately show ?thesis
    by (simp add: validate_skill_def check_description_def dict_get_def check_license_def
        body_example check_toc_def check_nested_def)
qed

text \<open>
  C5, amended. When the header has been parsed and the name check raises nothing (the
  name is absent, falsy or a string), the errors end with those of the description
  check. It gives the one missing-or-empty error when the key is absent, when the value
  is falsy (\<open>None\<close>, \<open>False\<close>, 0, an empty string or collection), and when the string
  of the value is white space only. Otherwise it gives one error exactly when the
  string of the value, every run of white space collapsed to one space and the ends
  trimmed, has more than 1024 characters, and the error cites that length.
\<close>

theorem description_rule:
  "skill_md fs = Some content \<Longrightarrow> fm_match content = Some (header, body)
   \<Longrightarrow> L header = Inr (DocDict fm) \<Longrightarrow> check_name fm d = Inr name_errs
   \<Longrightarrow> validate_skill L fs d =
         Inr (name_errs @
              (case fm ''description'' of
                 None \<Rightarrow> [err_desc_missing]
               | Some v \<Rightarrow>
                   if \<not> truthy v \<or> (\<forall>c\<in>set (py_str v). is_space c)
                   then [err_desc_missing]
                   else (let n = length (py_strip (collapse_ws (py_str v)))
                         in if 1024 < n
                            then [[CHR 0x27] @ ''description' exceeds 1024 characters (''
                                  @ show_nat n @ '' chars)'']
                            else [])),
              check_license fm @ check_body body
              @ check_toc (references fs) @ check_nested (references fs))"
  by (simp add: validate_skill_def check_description_rule)


text \<open>
  A header that gives the description as a double-quoted YAML scalar, \<open>q\<close> being the
  text between the quotes, in which a line break is written \<open>\n\<close>.
\<close>

definition desc_header :: "string \<Rightarrow> string" where
  "desc_header q = ''{name: my-skill, description: '' @ [CHR 0x22] @ q @ [CHR 0x22]
                   @ '', license: MIT}''"

lemma fm_match_desc_header:
  assumes "LF \<notin> set q"
  shows "fm_match (skill_text (desc_header q) ''# Body'') = Some (desc_header q, ''# Body'')"
  by (rule fm_match_skill_text) (use assms in \<open>simp_all add: desc_header_def is_space_def LF_def\<close>)

lemma my_skill_name_ok:
  "name_pattern ''my-skill''" "\<not> py_in ''--'' ''my-skill''"
  by code_simp+

lemma check_name_my_skill:
  "fm ''name'' = Some (PyStr ''my-skill'') \<Longrightarrow> check_name fm ''skills/my-skill'' = Inr []"
  by (simp add: check_name_def dict_get_def name_errors_def dir_name_ex my_skill_name_ok)

theorem description_rule_witness:
  "validate_skill
     (\<lambda>h. Inr (DocDict [''name'' \<mapsto> PyStr ''my-skill'',
                        ''description'' \<mapsto> PyStr [CHR '' '', LF, CHR '' ''],
                        ''license'' \<mapsto> PyStr ''MIT'']))
     \<lparr>skill_md = Some (skill_text (desc_header ('' '' @ [CHR 0x5C] @ ''n '')) ''# Body''),
      references = None\<rparr> ''skills/my-skill''
     = Inr ([''Missing or empty 'description' field in frontmatter''], [])
   \<and> validate_skill
     (\<lambda>h. Inr (DocDict [''name'' \<mapsto> PyStr ''my-skill'',
                        ''description'' \<mapsto> PyStr (replicate 1024 (CHR ''a'')
                            @ [CHR '' '', CHR '' '', LF, CHR '' '', CHR ''b'']),
                        ''license'' \<mapsto> PyStr ''MIT'']))
     \<lparr>skill_md = Some (skill_text
                   (desc_header (replicate 1024 (CHR ''a'') @ ''  '' @ [CHR 0x5C] @ ''n b''))
                   ''# Body''),
      references = None\<rparr> ''skills/my-skill''
     = Inr ([[CHR 0x27] @ ''description' exceeds 1024 characters (1026 chars)''], [])
   \<and> validate_skill
     (\<lambda>h. Inr (DocDict [''name'' \<mapsto> PyStr ''my-skill'',
                        ''description'' \<mapsto> PyStr (replicate 1000 (CHR ''a'')
                            @ replicate 100 LF @ ''b''),
                        ''license'' \<mapsto> PyStr ''MIT'']))
     \<lparr>skill_md = Some (skill_text
                   (desc_header (replicate 1000 (CHR ''a'')
                      @ concat (replicate 100 [CHR 0x5C, CHR ''n'']) @ ''b''))
                   ''# Body''),
      references = None\<rparr> ''skills/my-skill''
     = Inr ([], [])"
proof -
  let ?q1 = "'' '' @ [CHR 0x5C] @ ''n ''"
  let ?q2 = "replicate 1024 (CHR ''a'') @ ''  '' @ [CHR 0x5C] @ ''n b''"
  let ?q3 = "replicate 1000 (CHR ''a'') @ concat (replicate 100 [CHR 0x5C, CHR ''n'']) @ ''b''"
  have f1: "fm_match (skill_text (desc_header ?q1) ''# Body'') = Some (desc_header ?q1, ''# Body'')"
    by (rule fm_match_desc_header) (simp add: LF_def)
  have f2: "fm_match (skill_text (desc_header ?q2) ''# Body'') = Some (desc_header ?q2, ''# Body'')"
    by (rule fm_match_desc_header) (simp add: LF_def)
  have f3: "fm_match (skill_text (desc_header ?q3) ''# Body'') = Some (desc_header ?q3, ''# Body'')"
    by (rule fm_match_desc_header) (simp add: LF_def)
  have l2: "length (py_strip (collapse_ws (replicate 1024 (CHR ''a'')
              @ [CHR '' '', CHR '' '', LF, CHR '' '', CHR ''b'']))) = 1026"
    by (simp only: collapse_example_long) simp
  have l3: "length (py_strip (collapse_ws (replicate 1000 (CHR ''a'')
              @ replicate 100 LF @ ''b''))) = 1002"
    by (simp only: collapse_example_short) simp
  have r1: "validate_skill
     (\<lambda>h. Inr (DocDict [''name'' \<mapsto> PyStr ''my-skill'',
                        ''description'' \<mapsto> PyStr [CHR '' '', LF, CHR '' ''],
                        ''license'' \<mapsto> PyStr ''MIT'']))
     \<lparr>skill_md = Some (skill_text (desc_header ?q1) ''# Body''), references = None\<rparr>
     ''skills/my-skill''
     = Inr ([''Missing or empty 'description' field in frontmatter''], [])"
    using description_rule
        [where fs = "\<lparr>skill_md = Some (skill_text (desc_header ?q1) ''# Body''),
                       references = None\<rparr>"
           and L = "\<lambda>h. Inr (DocDict [''name'' \<mapsto> PyStr ''my-skill'',
                        ''description'' \<mapsto> PyStr [CHR '' '', LF, CHR '' ''],
                        ''license'' \<mapsto> PyStr ''MIT''])"
           and d = "''skills/my-skill''" and name_errs = "[]", OF _ f1]
    by (simp add: check_name_my_skill is_space_def LF_def err_desc_missing_def
        check_license_def body_example check_toc_def check_nested_def)
  have r2: "validate_skill
     (\<lambda>h. Inr (DocDict [''name'' \<mapsto> PyStr ''my-skill'',
                        ''description'' \<mapsto> PyStr (replicate 1024 (CHR ''a'')
                            @ [CHR '' '', CHR '' '', LF, CHR '' '', CHR ''b'']),
                        ''license'' \<mapsto> PyStr ''MIT'']))
     \<lparr>skill_md = Some (skill_text (desc_header ?q2) ''# Body''), references = None\<rparr>
     ''skills/my-skill''
     = Inr ([[CHR 0x27] @ ''description' exceeds 1024 characters (1026 chars)''], [])"
    using description_rule
        [where fs = "\<lparr>skill_md = Some (skill_text (desc_header ?q2) ''# Body''),
                       references = None\<rparr>"
           and L = "\<lambda>h. Inr (DocDict [''name'' \<mapsto> PyStr ''my-skill'',
                        ''description'' \<mapsto> PyStr (replicate 1024 (CHR ''a'')
                            @ [CHR '' '', CHR '' '', LF, CHR '' '', CHR ''b'']),
                        ''license'' \<mapsto> PyStr ''MIT''])"
           and d = "''skills/my-skill''" and name_errs = "[]", OF _ f2]
    by (simp add: check_name_my_skill l2 show_nat_1026 is_space_def Let_def
        check_license_def body_example check_toc_def check_nested_def)
  have r3: "validate_skill
     (\<lambda>h. Inr (DocDict [''name'' \<mapsto> PyStr ''my-skill'',
                        ''description'' \<mapsto> PyStr (replicate 1000 (CHR ''a'')
                            @ replicate 100 LF @ ''b''),
                        ''license'' \<mapsto> PyStr ''MIT'']))
     \<lparr>skill_md = Some (skill_text (desc_header ?q3) ''# Body''), references = None\<rparr>
     ''skills/my-skill''
     = Inr ([], [])"
    using description_rule
        [where fs = "\<lparr>skill_md = Some (skill_text (desc_header ?q3) ''# Body''),
                       references = None\<rparr>"
           and L = "\<lambda>h. Inr (DocDict [''name'' \<mapsto> PyStr ''my-skill'',
                        ''description'' \<mapsto> PyStr (replicate 1000 (CHR ''a'')
                            @ replicate 100 LF @ ''b''),
                        ''license'' \<mapsto> PyStr ''MIT''])"
           and d = "''skills/my-skill''" and name_errs = "[]", OF _ f3]
    by (simp add: check_name_my_skill l3 is_space_def Let_def
        check_license_def body_example check_toc_def check_nested_def)
  from r1 r2 r3 show ?thesis by (simp only: simp_thms)
qed

subsection \<open>The nested links\<close>

text \<open>
  What the link pattern looks for, said without the matcher: somewhere in the text a
  \<open>[\<close>, a link text, \<open>](\<close>, a target that begins with \<open>references/\<close> or \<open>./\<close>, and
  further on \<open>.md)\<close>, the whole on one line.
\<close>

definition nested_link :: "string \<Rightarrow> bool" where
  "nested_link s =
     (\<exists>a t p u b. s = a @ ''['' @ t @ '']('' @ p @ u @ ''.md)'' @ b
        \<and> LF \<notin> set t \<and> LF \<notin> set u \<and> (p = ''references/'' \<or> p = ''./''))"

lemma md_close_iff:
  "md_close s \<noteq> None \<longleftrightarrow> (\<exists>u b. s = u @ ''.md)'' @ b \<and> LF \<notin> set u)"
proof (induction s)
  case Nil
  show ?case by simp
next
  case (Cons c cs)
  show ?case
  proof (cases "prefix ''.md)'' (c # cs)")
    case True
    then obtain r where "c # cs = ''.md)'' @ r" by (auto simp: prefix_def)
    then have "c # cs = [] @ ''.md)'' @ r \<and> LF \<notin> set []" by simp
    then have "\<exists>u b. c # cs = u @ ''.md)'' @ b \<and> LF \<notin> set u" by blast
    with True show ?thesis by simp
  next
    case False
    have split: "(\<exists>u b. c # cs = u @ ''.md)'' @ b \<and> LF \<notin> set u)
                 \<longleftrightarrow> c \<noteq> LF \<and> (\<exists>u b. cs = u @ ''.md)'' @ b \<and> LF \<notin> set u)"
    proof
      assume "\<exists>u b. c # cs = u @ ''.md)'' @ b \<and> LF \<notin> set u"
      then obtain u b where e: "c # cs = u @ ''.md)'' @ b" and n: "LF \<notin> set u" by blast
      have "u \<noteq> []" using e False by (auto simp: prefix_def)
      then obtain u' where u: "u = c # u'" using e by (cases u) auto
      with e n show "c \<noteq> LF \<and> (\<exists>u b. cs = u @ ''.md)'' @ b \<and> LF \<notin> set u)" by auto
    next
      assume "c \<noteq> LF \<and> (\<exists>u b. cs = u @ ''.md)'' @ b \<and> LF \<notin> set u)"
      then obtain u b where "c \<noteq> LF" "cs = u @ ''.md)'' @ b" "LF \<notin> set u" by blast
      then have "c # cs = (c # u) @ ''.md)'' @ b \<and> LF \<notin> set (c # u)" by simp
      then show "\<exists>u b. c # cs = u @ ''.md)'' @ b \<and> LF \<notin> set u" by blast
    qed
    show ?thesis
    proof (cases "c = LF")
      case True
      have "md_close (c # cs) = None" using False True by simp
      moreover have "\<not> (\<exists>u b. c # cs = u @ ''.md)'' @ b \<and> LF \<notin> set u)"
        using split True by blast
      ultimately show ?thesis by (simp only: simp_thms)
    next
      case c: False
      have "md_close (c # cs) \<noteq> None \<longleftrightarrow> md_close cs \<noteq> None"
        using False c by auto
      with Cons split c show ?thesis by simp
    qed
  qed
qed

lemma link_target_iff:
  "link_target s \<noteq> None
   \<longleftrightarrow> (\<exists>p u b. s = p @ u @ ''.md)'' @ b \<and> LF \<notin> set u
                \<and> (p = ''references/'' \<or> p = ''./''))"
proof -
  have a1: "(\<exists>u b. s = ''references/'' @ u @ ''.md)'' @ b \<and> LF \<notin> set u)
           \<longleftrightarrow> (\<exists>r. s = ''references/'' @ r \<and> md_close r \<noteq> None)"
    unfolding md_close_iff by blast
  have a2: "(\<exists>r. s = ''references/'' @ r \<and> md_close r \<noteq> None)
           \<longleftrightarrow> prefix ''references/'' s \<and> md_close (drop 11 s) \<noteq> None"
    by (auto simp: prefix_def)
  have a: "(\<exists>u b. s = ''references/'' @ u @ ''.md)'' @ b \<and> LF \<notin> set u)
           \<longleftrightarrow> prefix ''references/'' s \<and> md_close (drop 11 s) \<noteq> None"
    using a1 a2 by (rule trans)
  have b1: "(\<exists>u b. s = ''./'' @ u @ ''.md)'' @ b \<and> LF \<notin> set u)
           \<longleftrightarrow> (\<exists>r. s = ''./'' @ r \<and> md_close r \<noteq> None)"
    unfolding md_close_iff by blast
  have b2: "(\<exists>r. s = ''./'' @ r \<and> md_close r \<noteq> None)
           \<longleftrightarrow> prefix ''./'' s \<and> md_close (drop 2 s) \<noteq> None"
    by (auto simp: prefix_def)
  have b: "(\<exists>u b. s = ''./'' @ u @ ''.md)'' @ b \<and> LF \<notin> set u)
           \<longleftrightarrow> prefix ''./'' s \<and> md_close (drop 2 s) \<noteq> None"
    using b1 b2 by (rule trans)
  have c: "\<not> (prefix ''references/'' s \<and> prefix ''./'' s)"
    by (auto simp: prefix_def)
  have "(\<exists>p u b. s = p @ u @ ''.md)'' @ b \<and> LF \<notin> set u
                \<and> (p = ''references/'' \<or> p = ''./''))
        \<longleftrightarrow> (\<exists>u b. s = ''references/'' @ u @ ''.md)'' @ b \<and> LF \<notin> set u)
            \<or> (\<exists>u b. s = ''./'' @ u @ ''.md)'' @ b \<and> LF \<notin> set u)"
    by blast
  also have "\<dots> \<longleftrightarrow> link_target s \<noteq> None"
    unfolding a b using c by (auto simp: link_target_def)
  finally show ?thesis by simp
qed

lemma link_text_iff:
  "link_text s \<noteq> None
   \<longleftrightarrow> (\<exists>t r. s = t @ '']('' @ r \<and> LF \<notin> set t \<and> link_target r \<noteq> None)"
proof (induction s)
  case Nil
  show ?case by simp
next
  case (Cons c cs)
  let ?here = "prefix '']('' (c # cs) \<and> link_target (drop 2 (c # cs)) \<noteq> None"
  show ?case
  proof (cases ?here)
    case True
    then obtain r where r: "c # cs = '']('' @ r" by (auto simp: prefix_def)
    with True have "link_target r \<noteq> None" by simp
    with r have "c # cs = [] @ '']('' @ r \<and> LF \<notin> set [] \<and> link_target r \<noteq> None" by simp
    then have "\<exists>t r. c # cs = t @ '']('' @ r \<and> LF \<notin> set t \<and> link_target r \<noteq> None"
      by blast
    moreover have "link_text (c # cs) \<noteq> None" using True by auto
    ultimately show ?thesis by simp
  next
    case False
    have split: "(\<exists>t r. c # cs = t @ '']('' @ r \<and> LF \<notin> set t \<and> link_target r \<noteq> None)
                 \<longleftrightarrow> c \<noteq> LF
                     \<and> (\<exists>t r. cs = t @ '']('' @ r \<and> LF \<notin> set t \<and> link_target r \<noteq> None)"
    proof
      assume "\<exists>t r. c # cs = t @ '']('' @ r \<and> LF \<notin> set t \<and> link_target r \<noteq> None"
      then obtain t r where e: "c # cs = t @ '']('' @ r" and n: "LF \<notin> set t"
        and l: "link_target r \<noteq> None" by blast
      have "t \<noteq> []"
      proof
        assume "t = []"
        with e l have ?here by (simp add: prefix_def)
        with False show False by simp
      qed
      then obtain t' where "t = c # t'" using e by (cases t) auto
      with e n l show "c \<noteq> LF
          \<and> (\<exists>t r. cs = t @ '']('' @ r \<and> LF \<notin> set t \<and> link_target r \<noteq> None)"
        by auto
    next
      assume "c \<noteq> LF
          \<and> (\<exists>t r. cs = t @ '']('' @ r \<and> LF \<notin> set t \<and> link_target r \<noteq> None)"
      then obtain t r where "c \<noteq> LF" "cs = t @ '']('' @ r" "LF \<notin> set t"
        "link_target r \<noteq> None" by blast
      then have "c # cs = (c # t) @ '']('' @ r \<and> LF \<notin> set (c # t) \<and> link_target r \<noteq> None"
        by simp
      then show "\<exists>t r. c # cs = t @ '']('' @ r \<and> LF \<notin> set t \<and> link_target r \<noteq> None"
        by blast
    qed
    have inner: "(if prefix '']('' (c # cs)
                  then map_option (append '']('') (link_target (drop 2 (c # cs)))
                  else None) = None"
      using False by auto
    have "link_text (c # cs) \<noteq> None \<longleftrightarrow> c \<noteq> LF \<and> link_text cs \<noteq> None"
      by (simp only: link_text.simps inner) simp
    with Cons split show ?thesis by simp
  qed
qed

lemma link_at_iff:
  "link_at s \<noteq> None \<longleftrightarrow> (\<exists>r. s = CHR ''['' # r \<and> link_text r \<noteq> None)"
  by (cases s) (auto simp: link_at_def)

lemma findall_nonempty_iff:
  "findall_from 0 s \<noteq> [] \<longleftrightarrow> (\<exists>a r. s = a @ r \<and> link_at r \<noteq> None)"
proof (induction s)
  case Nil
  show ?case by (simp add: link_at_def)
next
  case (Cons c cs)
  show ?case
  proof (cases "link_at (c # cs)")
    case (Some m)
    then have "c # cs = [] @ (c # cs) \<and> link_at (c # cs) \<noteq> None" by simp
    then have "\<exists>a r. c # cs = a @ r \<and> link_at r \<noteq> None" by blast
    with Some show ?thesis by simp
  next
    case None
    have "(\<exists>a r. c # cs = a @ r \<and> link_at r \<noteq> None)
          \<longleftrightarrow> (\<exists>a r. cs = a @ r \<and> link_at r \<noteq> None)"
    proof
      assume "\<exists>a r. c # cs = a @ r \<and> link_at r \<noteq> None"
      then obtain a r where e: "c # cs = a @ r" and l: "link_at r \<noteq> None" by blast
      have "a \<noteq> []" using e l None by auto
      then obtain a' where "a = c # a'" using e by (cases a) auto
      with e l show "\<exists>a r. cs = a @ r \<and> link_at r \<noteq> None" by auto
    next
      assume "\<exists>a r. cs = a @ r \<and> link_at r \<noteq> None"
      then obtain a r where "cs = a @ r" "link_at r \<noteq> None" by blast
      then have "c # cs = (c # a) @ r \<and> link_at r \<noteq> None" by simp
      then show "\<exists>a r. c # cs = a @ r \<and> link_at r \<noteq> None" by blast
    qed
    with Cons None show ?thesis by simp
  qed
qed

text \<open>The pattern finds a match exactly in the texts that hold such a link.\<close>

lemma findall_links_iff: "findall_links s \<noteq> [] \<longleftrightarrow> nested_link s"
proof -
  have "findall_links s \<noteq> []
        \<longleftrightarrow> (\<exists>a r t x. s = a @ CHR ''['' # r \<and> r = t @ '']('' @ x \<and> LF \<notin> set t
                       \<and> link_target x \<noteq> None)"
    unfolding findall_links_def findall_nonempty_iff link_at_iff link_text_iff by blast
  also have "\<dots> \<longleftrightarrow> (\<exists>a t x. s = a @ ''['' @ t @ '']('' @ x \<and> LF \<notin> set t
                       \<and> link_target x \<noteq> None)"
  proof
    assume "\<exists>a r t x. s = a @ CHR ''['' # r \<and> r = t @ '']('' @ x \<and> LF \<notin> set t
                       \<and> link_target x \<noteq> None"
    then obtain a r t x where "s = a @ CHR ''['' # r" "r = t @ '']('' @ x" "LF \<notin> set t"
      "link_target x \<noteq> None" by blast
    then have "s = a @ ''['' @ t @ '']('' @ x \<and> LF \<notin> set t \<and> link_target x \<noteq> None"
      by simp
    then show "\<exists>a t x. s = a @ ''['' @ t @ '']('' @ x \<and> LF \<notin> set t
                       \<and> link_target x \<noteq> None" by blast
  next
    assume "\<exists>a t x. s = a @ ''['' @ t @ '']('' @ x \<and> LF \<notin> set t
                       \<and> link_target x \<noteq> None"
    then obtain a t x where "s = a @ ''['' @ t @ '']('' @ x" "LF \<notin> set t"
      "link_target x \<noteq> None" by blast
    then have "s = a @ CHR ''['' # (t @ '']('' @ x) \<and> t @ '']('' @ x = t @ '']('' @ x
               \<and> LF \<notin> set t \<and> link_target x \<noteq> None"
      by simp
    then show "\<exists>a r t x. s = a @ CHR ''['' # r \<and> r = t @ '']('' @ x \<and> LF \<notin> set t
                       \<and> link_target x \<noteq> None" by blast
  qed
  also have "\<dots> \<longleftrightarrow> nested_link s"
    unfolding link_target_iff nested_link_def by blast
  finally show ?thesis .
qed


text \<open>Every match is a piece of the text, as it stands there.\<close>

lemma md_close_prefix: "md_close s = Some m \<Longrightarrow> prefix m s"
proof (induction s arbitrary: m)
  case Nil
  then show ?case by simp
next
  case (Cons c cs)
  show ?case
  proof (cases "prefix ''.md)'' (c # cs)")
    case True
    then have "md_close (c # cs) = Some ''.md)''"
      by (simp only: md_close.simps if_True)
    with Cons.prems have "m = ''.md)''" by (simp only: option.inject)
    with True show ?thesis by (simp only:)
  next
    case False
    then have "md_close (c # cs) = (if c = LF then None else map_option (Cons c) (md_close cs))"
      by (simp only: md_close.simps if_False)
    with Cons.prems
    have "(if c = LF then None else map_option (Cons c) (md_close cs)) = Some m"
      by (simp only:)
    then obtain m' where "md_close cs = Some m'" "m = c # m'"
      by (cases "c = LF"; cases "md_close cs") auto
    with Cons.IH show ?thesis by simp
  qed
qed

lemma link_target_prefix: "link_target s = Some m \<Longrightarrow> prefix m s"
proof (cases "prefix ''references/'' s")
  case True
  assume a: "link_target s = Some m"
  from True obtain r where r: "s = ''references/'' @ r" by (auto simp: prefix_def)
  with a obtain m' where "md_close r = Some m'" "m = ''references/'' @ m'"
    by (auto simp: link_target_def)
  with r md_close_prefix[of r m'] show ?thesis by simp
next
  case False
  assume a: "link_target s = Some m"
  with False have p: "prefix ''./'' s" by (auto simp: link_target_def split: if_splits)
  then obtain r where r: "s = ''./'' @ r" by (auto simp: prefix_def)
  with a False obtain m' where "md_close r = Some m'" "m = ''./'' @ m'"
    by (auto simp: link_target_def)
  with r md_close_prefix[of r m'] show ?thesis by simp
qed

lemma link_text_prefix: "link_text s = Some m \<Longrightarrow> prefix m s"
proof (induction s arbitrary: m)
  case Nil
  then show ?case by simp
next
  case (Cons c cs)
  let ?inner = "if prefix '']('' (c # cs)
                then map_option (append '']('') (link_target (drop 2 (c # cs)))
                else None"
  show ?case
  proof (cases ?inner)
    case (Some x)
    then have p: "prefix '']('' (c # cs)" by (auto split: if_splits)
    then obtain r where r: "c # cs = '']('' @ r" by (auto simp: prefix_def)
    with Some obtain y where y: "link_target r = Some y" "x = '']('' @ y" by auto
    have "link_text (c # cs) = Some x"
      by (simp only: link_text.simps Some option.case)
    with Cons.prems have "m = x" by simp
    with y r link_target_prefix[of r y] show ?thesis by simp
  next
    case None
    have "link_text (c # cs) = (if c = LF then None else map_option (Cons c) (link_text cs))"
      by (simp only: link_text.simps None option.case)
    with Cons.prems
    have "(if c = LF then None else map_option (Cons c) (link_text cs)) = Some m"
      by (simp only:)
    then obtain m' where "link_text cs = Some m'" "m = c # m'"
      by (cases "c = LF"; cases "link_text cs") auto
    with Cons.IH show ?thesis by simp
  qed
qed

lemma link_at_prefix: "link_at s = Some m \<Longrightarrow> prefix m s"
  using link_text_prefix by (cases s) (auto simp: link_at_def split: if_splits)

lemma findall_from_sublist: "m \<in> set (findall_from k s) \<Longrightarrow> sublist m s"
proof (induction s arbitrary: k)
  case Nil
  then show ?case by simp
next
  case (Cons c cs)
  show ?case
  proof (cases "0 < k")
    case True
    with Cons.prems have "m \<in> set (findall_from (k - 1) cs)" by simp
    then have "sublist m cs" by (rule Cons.IH)
    then show ?thesis by (rule sublist_Cons_right[THEN iffD2, OF disjI2])
  next
    case False
    show ?thesis
    proof (cases "link_at (c # cs)")
      case None
      with False Cons.prems have "m \<in> set (findall_from 0 cs)" by simp
      then have "sublist m cs" by (rule Cons.IH)
      then show ?thesis by (rule sublist_Cons_right[THEN iffD2, OF disjI2])
    next
      case (Some x)
      with False Cons.prems consider "m = x" | "m \<in> set (findall_from (length x - 1) cs)"
        by auto
      then show ?thesis
      proof cases
        case 1
        with Some have "prefix m (c # cs)" by (simp add: link_at_prefix)
        then show ?thesis by (rule prefix_imp_sublist)
      next
        case 2
        then have "sublist m cs" by (rule Cons.IH)
        then show ?thesis by (rule sublist_Cons_right[THEN iffD2, OF disjI2])
      qed
    qed
  qed
qed


lemma sort_ex3: "sort [''b.md'', ''a.md'', ''c.md''] = [''a.md'', ''b.md'', ''c.md'']"
  by code_simp

lemma four_links:
  "findall_links ''[a](./a.md)\<newline>[b](./b.md)\<newline>[c](./c.md)\<newline>[d](./d.md)''
   = [''[a](./a.md)'', ''[b](./b.md)'', ''[c](./c.md)'', ''[d](./d.md)'']"
  "toc_warnings fname ''[a](./a.md)\<newline>[b](./b.md)\<newline>[c](./c.md)\<newline>[d](./d.md)'' = []"
  by (code_simp, simp add: toc_warnings_def readlines_def LF_def)

lemma repr_examples:
  "py_repr_list [''[see](references/other.md)'']
   = ''['' @ [CHR 0x27] @ ''[see](references/other.md)'' @ [CHR 0x27] @ '']''"
  "py_repr_list [''[a](./a.md)'', ''[b](./b.md)'', ''[c](./c.md)'']
   = ''['' @ [CHR 0x27] @ ''[a](./a.md)'' @ [CHR 0x27] @ '', '' @ [CHR 0x27] @ ''[b](./b.md)''
     @ [CHR 0x27] @ '', '' @ [CHR 0x27] @ ''[c](./c.md)'' @ [CHR 0x27] @ '']''"
  by code_simp+

lemma contained_not_prefixed:
  "py_in ''references/'' ''docs/references/other.md''"
  "endswith ''docs/references/other.md'' ''.md''"
  "endswith ''guide.md'' ''.md''"
  by code_simp+

text \<open>
  C6, as stated, fails on a link whose target contains \<open>references/\<close> without
  beginning with it: the target of \<open>[see](docs/references/other.md)\<close> contains
  \<open>references/\<close> and ends in \<open>.md\<close>, and the file draws no warning.
\<close>

theorem contained_references_counterexample:
  "validate_skill
     (\<lambda>h. Inr (DocDict [''name'' \<mapsto> PyStr ''my-skill'',
                        ''description'' \<mapsto> PyStr ''Does things'', ''license'' \<mapsto> PyStr ''MIT'']))
     \<lparr>skill_md = Some (skill_text ''{name: my-skill, description: Does things, license: MIT}''
                         ''# Body''),
      references = Some [(''guide.md'', File ''[see](docs/references/other.md)'')]\<rparr>
     ''skills/my-skill''
     = Inr ([], [])
   \<and> sublist ''references/'' ''docs/references/other.md''
   \<and> suffix ''.md'' ''docs/references/other.md''"
proof -
  let ?h = "''{name: my-skill, description: Does things, license: MIT}''"
  have "fm_match (skill_text ?h ''# Body'') = Some (?h, ''# Body'')"
    by (rule fm_match_skill_text[OF header_ok]) (simp add: is_space_def)
  then have "validate_skill
     (\<lambda>h. Inr (DocDict [''name'' \<mapsto> PyStr ''my-skill'',
                        ''description'' \<mapsto> PyStr ''Does things'', ''license'' \<mapsto> PyStr ''MIT'']))
     \<lparr>skill_md = Some (skill_text ?h ''# Body''),
      references = Some [(''guide.md'', File ''[see](docs/references/other.md)'')]\<rparr>
     ''skills/my-skill''
     = Inr ([], [])"
    by (simp add: validate_skill_def good_frontmatter body_example check_toc_def
        check_nested_def toc_step_def nested_step_def contained_not_prefixed
        short_file_no_toc_warning nested_examples)
  then show ?thesis
    using contained_not_prefixed by (simp add: py_in_sublist endswith_def)
qed

text \<open>
  C6, amended. Past parsing, with a \<open>references\<close> directory and a name check that
  raises nothing, the nested-link pass adds to the warnings what its step gives for
  each entry of the directory, the names sorted. For an entry that is a regular file
  whose name ends in \<open>.md\<close> the step gives one warning exactly when the text of the
  file holds, on one line, a \<open>[\<close>, a link text, \<open>](\<close>, a target that begins with
  \<open>references/\<close> or \<open>./\<close>, and further on \<open>.md)\<close>; the warning names the file and
  lists the first three matches at most, as Python prints a list of strings; for every
  other entry the step gives nothing. Every match is a piece of the text as it stands
  there. The names of a directory are distinct.
\<close>

theorem nested_link_rule:
  "skill_md fs = Some content \<Longrightarrow> fm_match content = Some (header, body)
   \<Longrightarrow> L header = Inr (DocDict fm) \<Longrightarrow> check_name fm d = Inr name_errs
   \<Longrightarrow> references fs = Some entries \<Longrightarrow> distinct (map fst entries)
   \<Longrightarrow> validate_skill L fs d =
         Inr (name_errs @ check_description fm,
              check_license fm @ check_body body @ check_toc (references fs)
              @ concat (map (nested_step entries) (sort (map fst entries))))
       \<and> (\<forall>(fname, node) \<in> set entries.
            nested_step entries fname =
              (case node of
                 NotFile \<Rightarrow> []
               | File ref_text \<Rightarrow>
                   if suffix ''.md'' fname \<and> nested_link ref_text
                   then [''references/'' @ fname
                         @ '' has nested reference links (should be one level deep): ''
                         @ py_repr_list (take 3 (findall_links ref_text))]
                   else []))
       \<and> (\<forall>m \<in> set (findall_links t). sublist m t)"
proof -
  assume a: "skill_md fs = Some content" "fm_match content = Some (header, body)"
    "L header = Inr (DocDict fm)" "check_name fm d = Inr name_errs"
    "references fs = Some entries" "distinct (map fst entries)"
  have v: "validate_skill L fs d =
         Inr (name_errs @ check_description fm,
              check_license fm @ check_body body @ check_toc (references fs)
              @ concat (map (nested_step entries) (sort (map fst entries))))"
    using a by (simp add: validate_skill_def check_nested_def nested_pass_concat)
  have "nested_step entries fname =
              (case node of
                 NotFile \<Rightarrow> []
               | File ref_text \<Rightarrow>
                   if suffix ''.md'' fname \<and> nested_link ref_text
                   then [''references/'' @ fname
                         @ '' has nested reference links (should be one level deep): ''
                         @ py_repr_list (take 3 (findall_links ref_text))]
                   else [])"
    if "(fname, node) \<in> set entries" for fname node
  proof -
    have "map_of entries fname = Some node" using that a(6) by simp
    then show ?thesis
      by (cases node)
         (simp_all add: nested_step_def nested_warnings_def endswith_def
            findall_links_iff[symmetric] warn_nested_def Let_def)
  qed
  moreover have "\<forall>m \<in> set (findall_links t). sublist m t"
    by (simp add: findall_links_def findall_from_sublist)
  ultimately show ?thesis using v by blast
qed

theorem nested_link_rule_witness:
  "validate_skill
     (\<lambda>h. Inr (DocDict [''name'' \<mapsto> PyStr ''my-skill'',
                        ''description'' \<mapsto> PyStr ''Does things'', ''license'' \<mapsto> PyStr ''MIT'']))
     \<lparr>skill_md = Some (skill_text ''{name: my-skill, description: Does things, license: MIT}''
                         ''# Body''),
      references = Some
        [(''b.md'', File ''[see](https://example.com/other.md)''),
         (''a.md'', File ''[see](references/other.md)''),
         (''c.md'', File ''[a](./a.md)\<newline>[b](./b.md)\<newline>[c](./c.md)\<newline>[d](./d.md)'')]\<rparr>
     ''skills/my-skill''
     = Inr ([],
        [''references/a.md has nested reference links (should be one level deep): [''
           @ [CHR 0x27] @ ''[see](references/other.md)'' @ [CHR 0x27] @ '']'',
         ''references/c.md has nested reference links (should be one level deep): [''
           @ [CHR 0x27] @ ''[a](./a.md)'' @ [CHR 0x27] @ '', '' @ [CHR 0x27] @ ''[b](./b.md)''
           @ [CHR 0x27] @ '', '' @ [CHR 0x27] @ ''[c](./c.md)'' @ [CHR 0x27] @ '']''])"
proof -
  let ?h = "''{name: my-skill, description: Does things, license: MIT}''"
  have fm: "fm_match (skill_text ?h ''# Body'') = Some (?h, ''# Body'')"
    by (rule fm_match_skill_text[OF header_ok]) (simp add: is_space_def)
  show ?thesis
    using nested_link_rule
        [where fs = "\<lparr>skill_md = Some (skill_text ?h ''# Body''),
                       references = Some
        [(''b.md'', File ''[see](https://example.com/other.md)''),
         (''a.md'', File ''[see](references/other.md)''),
         (''c.md'', File ''[a](./a.md)\<newline>[b](./b.md)\<newline>[c](./c.md)\<newline>[d](./d.md)'')]\<rparr>"
           and L = "\<lambda>h. Inr (DocDict [''name'' \<mapsto> PyStr ''my-skill'',
                  ''description'' \<mapsto> PyStr ''Does things'', ''license'' \<mapsto> PyStr ''MIT''])"
           and d = "''skills/my-skill''"
           and entries = "[(''b.md'', File ''[see](https://example.com/other.md)''),
         (''a.md'', File ''[see](references/other.md)''),
         (''c.md'', File ''[a](./a.md)\<newline>[b](./b.md)\<newline>[c](./c.md)\<newline>[d](./d.md)'')]",
         OF _ fm _ good_frontmatter(1)]
    by (simp add: good_frontmatter body_example sort_ex3 suffix_examples2
        check_toc_def toc_step_def nested_step_def endswith_def
        short_file_no_toc_warning four_links nested_warnings_def link_examples
        warn_nested_def repr_examples)
qed

subsection \<open>A valid skill\<close>






end
